theory Spec2Isabelle
  imports Complex_Main
begin

section \<open>Data model\<close>

text \<open>
  The component \<open>App\<close> exists in two variants, \<open>src/App.tsx\<close> and
  \<open>src/unnamed/part_000\<close>. They share the references, \<open>stopConversation\<close>,
  \<open>startConversation\<close>, the playback scheduling and the error and close handlers; they differ
  in how \<open>onmessage\<close> derives the status from a transcription. Line numbers below are those
  of \<open>src/App.tsx\<close> unless the other file is named.
\<close>

datatype AgentStatus = Idle | Listening | Thinking | Speaking | Error

text \<open>Browser objects the component holds references to, kept in an explicit store.\<close>

datatype AudioContextState = Suspended | Running | Closed

datatype TrackState = Live | Ended

datatype SessionState = Connected | Disconnected

type_synonym MediaStream = "TrackState list"

record AudioContext =
  ctx_state :: AudioContextState
  ctx_sampleRate :: nat

text \<open>
  An \<open>AudioBuffer\<close> of the Web Audio interface: its \<open>duration\<close> attribute is the number of
  sample frames divided by the sample rate. The quotient is exact here; the program holds it
  rounded to a floating-point number, which the scheduler with rounding below accounts for.
\<close>

record AudioBuffer =
  buf_length :: nat
  buf_sampleRate :: nat
  numberOfChannels :: nat

definition duration :: "AudioBuffer \<Rightarrow> real" where
  "duration b = real (buf_length b) / real (buf_sampleRate b)"

text \<open>
  The state of the component: the two \<open>useState\<close> cells, the eight \<open>useRef\<close> cells
  (lines 134-145; a reference is \<open>None\<close> for \<open>null\<close> and otherwise an index into the
  store), and the store itself: every session, media stream, audio context and audio node
  created so far, and every call of \<open>source.start\<close> as (context, start time, buffer).
  \<open>nodes\<close> holds for each node whether its output is connected. A state setter is an
  assignment here: what is seen after a handler has run is the value that was set last.
\<close>

record app =
  isSessionActive :: bool
  agentStatus :: AgentStatus
  sessionRef :: "nat option"
  micStreamRef :: "nat option"
  audioContextRef :: "nat option"
  scriptProcessorRef :: "nat option"
  mediaStreamSourceRef :: "nat option"
  outputAudioContextRef :: "nat option"
  analyserNodeRef :: "nat option"
  nextStartTimeRef :: real
  sessions :: "SessionState list"
  streams :: "MediaStream list"
  contexts :: "AudioContext list"
  nodes :: "bool list"
  started :: "(nat \<times> real \<times> AudioBuffer) list"

definition initial :: app where
  "initial = \<lparr> isSessionActive = False, agentStatus = Idle, sessionRef = None,
     micStreamRef = None, audioContextRef = None, scriptProcessorRef = None,
     mediaStreamSourceRef = None, outputAudioContextRef = None, analyserNodeRef = None,
     nextStartTimeRef = 0, sessions = [], streams = [], contexts = [], nodes = [],
     started = [] \<rparr>"

text \<open>The calls \<open>stopConversation\<close> makes on browser and library objects (lines 156-175).\<close>

datatype call =
  SessionClose | TrackStop | ProcessorDisconnect | SourceDisconnect
  | InputContextClose | OutputContextClose

text \<open>
  Exceptions: a call that throws, a \<open>TypeError\<close> from dereferencing \<open>null\<close>, and the two
  rejections of start-up (microphone permission, connection).
\<close>

datatype exn = Thrown call | TypeError | PermissionDenied | ConnectionFailure

text \<open>
  A handler returns the new state, or the exception it threw together with the state it left
  behind at that point.
\<close>

type_synonym outcome = "(exn \<times> app) + app"

definition and_then :: "outcome \<Rightarrow> (app \<Rightarrow> outcome) \<Rightarrow> outcome" where
  "and_then r f = (case r of Inl e \<Rightarrow> Inl e | Inr x \<Rightarrow> f x)"

text \<open>A reference is well formed when it is \<open>null\<close> or points into the store.\<close>

definition in_store :: "nat option \<Rightarrow> 'a list \<Rightarrow> bool" where
  "in_store r xs = (case r of None \<Rightarrow> True | Some i \<Rightarrow> i < length xs)"

definition refs_ok :: "app \<Rightarrow> bool" where
  "refs_ok s = (in_store (sessionRef s) (sessions s) \<and> in_store (micStreamRef s) (streams s)
     \<and> in_store (audioContextRef s) (contexts s) \<and> in_store (scriptProcessorRef s) (nodes s)
     \<and> in_store (mediaStreamSourceRef s) (nodes s)
     \<and> in_store (outputAudioContextRef s) (contexts s)
     \<and> in_store (analyserNodeRef s) (nodes s))"

section \<open>stopConversation (lines 154-181)\<close>

text \<open>
  Each of the six blocks is one function. \<open>throws c\<close> says whether the call \<open>c\<close> throws
  when it is made; there is no \<open>try\<close> in \<open>stopConversation\<close>, so an exception leaves
  the function at once.
\<close>

definition close_session :: "(call \<Rightarrow> bool) \<Rightarrow> app \<Rightarrow> outcome" where
  "close_session throws s =
     (case sessionRef s of
        None \<Rightarrow> Inr s
      | Some i \<Rightarrow>
          if throws SessionClose then Inl (Thrown SessionClose, s)
          else Inr (s\<lparr>sessions := (sessions s)[i := Disconnected], sessionRef := None\<rparr>))"

definition stop_tracks :: "(call \<Rightarrow> bool) \<Rightarrow> app \<Rightarrow> outcome" where
  "stop_tracks throws s =
     (case micStreamRef s of
        None \<Rightarrow> Inr s
      | Some i \<Rightarrow>
          if streams s ! i \<noteq> [] \<and> throws TrackStop then Inl (Thrown TrackStop, s)
          else Inr (s\<lparr>streams := (streams s)[i := map (\<lambda>track. Ended) (streams s ! i)],
                      micStreamRef := None\<rparr>))"

definition disconnect_processor :: "(call \<Rightarrow> bool) \<Rightarrow> app \<Rightarrow> outcome" where
  "disconnect_processor throws s =
     (case scriptProcessorRef s of
        None \<Rightarrow> Inr s
      | Some i \<Rightarrow>
          if throws ProcessorDisconnect then Inl (Thrown ProcessorDisconnect, s)
          else Inr (s\<lparr>nodes := (nodes s)[i := False], scriptProcessorRef := None\<rparr>))"

definition disconnect_source :: "(call \<Rightarrow> bool) \<Rightarrow> app \<Rightarrow> outcome" where
  "disconnect_source throws s =
     (case mediaStreamSourceRef s of
        None \<Rightarrow> Inr s
      | Some i \<Rightarrow>
          if throws SourceDisconnect then Inl (Thrown SourceDisconnect, s)
          else Inr (s\<lparr>nodes := (nodes s)[i := False], mediaStreamSourceRef := None\<rparr>))"

text \<open>
  The two contexts are closed but their references are kept (lines 171-176). \<open>close()\<close>
  returns a promise; the state of the context is \<open>closed\<close> from the call on.
\<close>

definition close_input_context :: "(call \<Rightarrow> bool) \<Rightarrow> app \<Rightarrow> outcome" where
  "close_input_context throws s =
     (case audioContextRef s of
        None \<Rightarrow> Inr s
      | Some i \<Rightarrow>
          if ctx_state (contexts s ! i) \<noteq> Closed then
            if throws InputContextClose then Inl (Thrown InputContextClose, s)
            else Inr (s\<lparr>contexts := (contexts s)[i := (contexts s ! i)\<lparr>ctx_state := Closed\<rparr>]\<rparr>)
          else Inr s)"

definition close_output_context :: "(call \<Rightarrow> bool) \<Rightarrow> app \<Rightarrow> outcome" where
  "close_output_context throws s =
     (case outputAudioContextRef s of
        None \<Rightarrow> Inr s
      | Some i \<Rightarrow>
          if ctx_state (contexts s ! i) \<noteq> Closed then
            if throws OutputContextClose then Inl (Thrown OutputContextClose, s)
            else Inr (s\<lparr>contexts := (contexts s)[i := (contexts s ! i)\<lparr>ctx_state := Closed\<rparr>]\<rparr>)
          else Inr s)"

definition reset_state :: "app \<Rightarrow> app" where
  "reset_state s = s\<lparr>isSessionActive := False, agentStatus := Idle, nextStartTimeRef := 0\<rparr>"

definition stopConversation :: "(call \<Rightarrow> bool) \<Rightarrow> app \<Rightarrow> outcome" where
  "stopConversation throws s =
     and_then (close_session throws s) (\<lambda>s.
     and_then (stop_tracks throws s) (\<lambda>s.
     and_then (disconnect_processor throws s) (\<lambda>s.
     and_then (disconnect_source throws s) (\<lambda>s.
     and_then (close_input_context throws s) (\<lambda>s.
     and_then (close_output_context throws s) (\<lambda>s.
     Inr (reset_state s)))))))"

definition no_throw :: "call \<Rightarrow> bool" where
  "no_throw c = False"

section \<open>startConversation (lines 189-271)\<close>

text \<open>
  The function is asynchronous: it suspends at \<open>getUserMedia\<close> and at the session promise.
  Each stretch between two suspension points is one function; \<open>startConversation\<close> runs
  them with nothing in between. The environment gives the outcome of the two awaited
  operations (\<open>Inl\<close> a rejection or an exception of the constructor of the client). The
  other constructors are taken to succeed, and a new context to be running.
\<close>

record start_env =
  getUserMedia :: "exn + MediaStream"
  connect :: "exn + SessionState"

definition startConversation_begin :: "app \<Rightarrow> app" where
  "startConversation_begin s = s\<lparr>agentStatus := Listening, isSessionActive := True\<rparr>"

definition startConversation_catch :: "app \<Rightarrow> app" where
  "startConversation_catch s = s\<lparr>agentStatus := Error, isSessionActive := False\<rparr>"

definition startConversation_media :: "MediaStream \<Rightarrow> app \<Rightarrow> app" where
  "startConversation_media stream s =
     (let s1 = s\<lparr>micStreamRef := Some (length (streams s)), streams := streams s @ [stream]\<rparr>;
          s2 = s1\<lparr>audioContextRef := Some (length (contexts s1)),
                  contexts := contexts s1 @ [\<lparr>ctx_state = Running, ctx_sampleRate = 16000\<rparr>]\<rparr>;
          s3 = s2\<lparr>outputAudioContextRef := Some (length (contexts s2)),
                  contexts := contexts s2 @ [\<lparr>ctx_state = Running, ctx_sampleRate = 24000\<rparr>]\<rparr>;
          s4 = s3\<lparr>nextStartTimeRef := 0\<rparr>
      in s4\<lparr>analyserNodeRef := Some (length (nodes s4)), nodes := nodes s4 @ [True]\<rparr>)"

definition startConversation_connected :: "SessionState \<Rightarrow> app \<Rightarrow> app" where
  "startConversation_connected session s =
     s\<lparr>sessionRef := Some (length (sessions s)), sessions := sessions s @ [session]\<rparr>"

definition startConversation :: "start_env \<Rightarrow> app \<Rightarrow> app" where
  "startConversation env s =
     (let s1 = startConversation_begin s in
      case getUserMedia env of
        Inl e \<Rightarrow> startConversation_catch s1
      | Inr stream \<Rightarrow>
          (let s2 = startConversation_media stream s1 in
           case connect env of
             Inl e \<Rightarrow> startConversation_catch s2
           | Inr session \<Rightarrow> startConversation_connected session s2))"

text \<open>The callback \<open>onopen\<close> (lines 215-230); the non-null assertion fails on \<open>null\<close>.\<close>

definition onopen :: "app \<Rightarrow> outcome" where
  "onopen s =
     (case audioContextRef s of
        None \<Rightarrow> Inl (TypeError, s)
      | Some c \<Rightarrow>
          (let s1 = s\<lparr>mediaStreamSourceRef := Some (length (nodes s)), nodes := nodes s @ [False]\<rparr>;
               s2 = s1\<lparr>scriptProcessorRef := Some (length (nodes s1)), nodes := nodes s1 @ [False]\<rparr>
           in Inr (s2\<lparr>nodes := (nodes s2)[length (nodes s) := True, length (nodes s1) := True]\<rparr>)))"

section \<open>Inbound messages\<close>

record Transcription =
  isFinal :: "bool option"

record Blob =
  data :: "string option"

record Part =
  inlineData :: "Blob option"

record Content =
  parts :: "Part list option"

record ServerContent =
  inputTranscription :: "Transcription option"
  turnComplete :: "bool option"
  modelTurn :: "Content option"

record LiveServerMessage =
  serverContent :: "ServerContent option"

text \<open>\<open>message.serverContent?.modelTurn?.parts?.[0]?.inlineData?.data\<close> (line 236).\<close>

definition audioData :: "LiveServerMessage \<Rightarrow> string option" where
  "audioData m =
     (case serverContent m of None \<Rightarrow> None | Some sc \<Rightarrow>
      case modelTurn sc of None \<Rightarrow> None | Some c \<Rightarrow>
      case parts c of None \<Rightarrow> None | Some ps \<Rightarrow>
      case ps of [] \<Rightarrow> None | p # rest \<Rightarrow>
      case inlineData p of None \<Rightarrow> None | Some b \<Rightarrow> data b)"

text \<open>Truthiness of an optional flag and of an optional string.\<close>

definition truthy_flag :: "bool option \<Rightarrow> bool" where
  "truthy_flag b = (b = Some True)"

definition truthy_string :: "string option \<Rightarrow> bool" where
  "truthy_string x = (case x of None \<Rightarrow> False | Some str \<Rightarrow> str \<noteq> [])"

definition has_inputTranscription :: "LiveServerMessage \<Rightarrow> bool" where
  "has_inputTranscription m =
     (case serverContent m of None \<Rightarrow> False | Some sc \<Rightarrow> inputTranscription sc \<noteq> None)"

definition has_turnComplete :: "LiveServerMessage \<Rightarrow> bool" where
  "has_turnComplete m =
     (case serverContent m of None \<Rightarrow> False | Some sc \<Rightarrow> truthy_flag (turnComplete sc))"

text \<open>The status taken from the transcription: \<open>src/App.tsx\<close>, lines 232-234.\<close>

definition transcription_status :: "LiveServerMessage \<Rightarrow> app \<Rightarrow> app" where
  "transcription_status m s =
     (if has_inputTranscription m \<or> has_turnComplete m then s\<lparr>agentStatus := Listening\<rparr>
      else s)"

text \<open>The same in \<open>src/unnamed/part_000\<close>, lines 194-204.\<close>

definition transcription_status_granular :: "LiveServerMessage \<Rightarrow> app \<Rightarrow> app" where
  "transcription_status_granular m s =
     (let s1 =
        (case serverContent m of
           None \<Rightarrow> s
         | Some sc \<Rightarrow>
             (case inputTranscription sc of
                None \<Rightarrow> s
              | Some t \<Rightarrow>
                  if truthy_flag (isFinal t) then s\<lparr>agentStatus := Thinking\<rparr>
                  else s\<lparr>agentStatus := Listening\<rparr>))
      in if has_turnComplete m then s1\<lparr>agentStatus := Listening\<rparr> else s1)"

text \<open>
  The guard and the stretch up to the awaited decode (lines 236-240): the result is the new
  state and, when the handler suspends at the decode, the payload being decoded.
\<close>

definition audio_guard :: "LiveServerMessage \<Rightarrow> app \<Rightarrow> bool" where
  "audio_guard m s =
     (truthy_string (audioData m) \<and> outputAudioContextRef s \<noteq> None \<and> analyserNodeRef s \<noteq> None)"

definition onmessage_audio :: "LiveServerMessage \<Rightarrow> app \<Rightarrow> app \<times> string option" where
  "onmessage_audio m s =
     (if audio_guard m s then (s\<lparr>agentStatus := Speaking\<rparr>, audioData m) else (s, None))"

definition onmessage_begin :: "LiveServerMessage \<Rightarrow> app \<Rightarrow> app \<times> string option" where
  "onmessage_begin m s = onmessage_audio m (transcription_status m s)"

definition onmessage_begin_granular :: "LiveServerMessage \<Rightarrow> app \<Rightarrow> app \<times> string option" where
  "onmessage_begin_granular m s = onmessage_audio m (transcription_status_granular m s)"

text \<open>
  The stretch after the decode (lines 242-250), the playback scheduler: \<open>currentTime\<close> is
  the reading of the output clock, \<open>audioBuffer\<close> the decoded buffer. Nothing is checked
  again here; a \<open>null\<close> context or analyser is a \<open>TypeError\<close>. The sum is exact
  here; the same stretch with the rounding of the program is defined further down.
\<close>

definition onmessage_resume :: "real \<Rightarrow> AudioBuffer \<Rightarrow> app \<Rightarrow> outcome" where
  "onmessage_resume currentTime audioBuffer s =
     (case outputAudioContextRef s of
        None \<Rightarrow> Inl (TypeError, s)
      | Some c \<Rightarrow>
          (let startTime = max currentTime (nextStartTimeRef s) in
           case analyserNodeRef s of
             None \<Rightarrow> Inl (TypeError, s)
           | Some a \<Rightarrow>
               Inr (s\<lparr>started := started s @ [(c, startTime, audioBuffer)],
                       nextStartTimeRef := startTime + duration audioBuffer\<rparr>)))"

text \<open>The handlers \<open>onerror\<close> and \<open>onclose\<close> (lines 253-260) and the toggle (273-276).\<close>

definition onerror :: "(call \<Rightarrow> bool) \<Rightarrow> app \<Rightarrow> outcome" where
  "onerror throws s = stopConversation throws (s\<lparr>agentStatus := Error\<rparr>)"

definition onclose :: "(call \<Rightarrow> bool) \<Rightarrow> app \<Rightarrow> outcome" where
  "onclose throws s = stopConversation throws s"

definition handleToggleSession :: "start_env \<Rightarrow> (call \<Rightarrow> bool) \<Rightarrow> app \<Rightarrow> outcome" where
  "handleToggleSession env throws s =
     (if isSessionActive s then stopConversation throws s else Inr (startConversation env s))"

text \<open>A run of the scheduler over buffers that arrive one after the other.\<close>

fun schedule_all :: "(real \<times> AudioBuffer) list \<Rightarrow> app \<Rightarrow> outcome" where
  "schedule_all [] s = Inr s"
| "schedule_all ((t, b) # evs) s =
     (case onmessage_resume t b s of Inl e \<Rightarrow> Inl e | Inr s' \<Rightarrow> schedule_all evs s')"

section \<open>What a stop that returns leaves behind\<close>

text \<open>
  The closed form of \<open>stopConversation\<close>, used in the proofs: the session disconnected, the
  tracks of the stream ended, the two nodes disconnected, the two contexts closed, at the
  places the references pointed to, and the cells reset.
\<close>

definition close_at :: "nat option \<Rightarrow> AudioContext list \<Rightarrow> AudioContext list" where
  "close_at r cs = (case r of None \<Rightarrow> cs | Some i \<Rightarrow> cs[i := (cs ! i)\<lparr>ctx_state := Closed\<rparr>])"

definition put_at :: "nat option \<Rightarrow> 'a \<Rightarrow> 'a list \<Rightarrow> 'a list" where
  "put_at r v xs = (case r of None \<Rightarrow> xs | Some i \<Rightarrow> xs[i := v])"

definition end_at :: "nat option \<Rightarrow> MediaStream list \<Rightarrow> MediaStream list" where
  "end_at r xs = (case r of None \<Rightarrow> xs | Some i \<Rightarrow> xs[i := map (\<lambda>track. Ended) (xs ! i)])"

definition stopped :: "app \<Rightarrow> app" where
  "stopped s = s\<lparr>isSessionActive := False, agentStatus := Idle, nextStartTimeRef := 0,
     sessionRef := None, micStreamRef := None, scriptProcessorRef := None,
     mediaStreamSourceRef := None,
     sessions := put_at (sessionRef s) Disconnected (sessions s),
     streams := end_at (micStreamRef s) (streams s),
     nodes := put_at (mediaStreamSourceRef s) False (put_at (scriptProcessorRef s) False (nodes s)),
     contexts := close_at (outputAudioContextRef s) (close_at (audioContextRef s) (contexts s))\<rparr>"

text \<open>
  Nothing in the store is open: every track ended, every context closed, every session
  disconnected.
\<close>

definition released :: "app \<Rightarrow> bool" where
  "released s = (list_all (list_all (\<lambda>track. track = Ended)) (streams s)
     \<and> list_all (\<lambda>c. ctx_state c = Closed) (contexts s)
     \<and> list_all (\<lambda>x. x = Disconnected) (sessions s))"

section \<open>Runs of the scheduler\<close>

text \<open>
  The cursor after each buffer of a run, read off the scheduler itself; and two predicates:
  no source of a list of started sources starts before the one before has ended, and every
  buffer arrives less than the duration of the one before after it.
\<close>

fun cursors :: "(real \<times> AudioBuffer) list \<Rightarrow> app \<Rightarrow> real list" where
  "cursors [] s = []"
| "cursors ((t, b) # evs) s =
     (case onmessage_resume t b s of Inl e \<Rightarrow> [] | Inr s' \<Rightarrow> nextStartTimeRef s' # cursors evs s')"

fun no_overlap :: "(nat \<times> real \<times> AudioBuffer) list \<Rightarrow> bool" where
  "no_overlap ((c, t, b) # (c', t', b') # rest) =
     (t + duration b \<le> t' \<and> no_overlap ((c', t', b') # rest))"
| "no_overlap xs = True"

fun keeping_pace :: "(real \<times> AudioBuffer) list \<Rightarrow> bool" where
  "keeping_pace ((t, b) # (t', b') # rest) =
     (t' - t < duration b \<and> keeping_pace ((t', b') # rest))"
| "keeping_pace evs = True"

text \<open>The sources started between two states.\<close>

definition newly_started :: "app \<Rightarrow> app \<Rightarrow> (nat \<times> real \<times> AudioBuffer) list" where
  "newly_started s s' = drop (length (started s)) (started s')"

text \<open>
  Closed forms of a run, used in the proofs: the sources it starts, the cursor it ends with
  and the cursor after each buffer, from the context, the cursor and the arrivals alone.
\<close>

fun plan :: "nat \<Rightarrow> real \<Rightarrow> (real \<times> AudioBuffer) list \<Rightarrow> (nat \<times> real \<times> AudioBuffer) list" where
  "plan c cur [] = []"
| "plan c cur ((t, b) # evs) = (c, max t cur, b) # plan c (max t cur + duration b) evs"

fun end_cursor :: "real \<Rightarrow> (real \<times> AudioBuffer) list \<Rightarrow> real" where
  "end_cursor cur [] = cur"
| "end_cursor cur ((t, b) # evs) = end_cursor (max t cur + duration b) evs"

fun cursor_values :: "real \<Rightarrow> (real \<times> AudioBuffer) list \<Rightarrow> real list" where
  "cursor_values cur [] = []"
| "cursor_values cur ((t, b) # evs) =
     (max t cur + duration b) # cursor_values (max t cur + duration b) evs"

definition total_duration :: "(real \<times> AudioBuffer) list \<Rightarrow> real" where
  "total_duration evs = sum_list (map (\<lambda>ev. duration (snd ev)) evs)"

section \<open>The scheduler in the arithmetic of the program\<close>

text \<open>
  Above, times are real numbers and \<open>duration\<close> and the sum at line 250 are exact. In the
  program they are binary floating-point numbers: the duration of a buffer is the rounded
  quotient, and the sum is rounded again. The scheduler below is the same stretch (lines
  242-250) with the rounding \<open>fl\<close> written out at both places; the maximum of two numbers
  needs no rounding. With the identity for \<open>fl\<close> it is \<open>onmessage_resume\<close>.
\<close>

definition onmessage_resume_rounded ::
  "(real \<Rightarrow> real) \<Rightarrow> real \<Rightarrow> AudioBuffer \<Rightarrow> app \<Rightarrow> outcome" where
  "onmessage_resume_rounded fl currentTime audioBuffer s =
     (case outputAudioContextRef s of
        None \<Rightarrow> Inl (TypeError, s)
      | Some c \<Rightarrow>
          (let startTime = max currentTime (nextStartTimeRef s) in
           case analyserNodeRef s of
             None \<Rightarrow> Inl (TypeError, s)
           | Some a \<Rightarrow>
               Inr (s\<lparr>started := started s @ [(c, startTime, audioBuffer)],
                       nextStartTimeRef := fl (startTime + fl (duration audioBuffer))\<rparr>)))"

fun schedule_all_rounded ::
  "(real \<Rightarrow> real) \<Rightarrow> (real \<times> AudioBuffer) list \<Rightarrow> app \<Rightarrow> outcome" where
  "schedule_all_rounded fl [] s = Inr s"
| "schedule_all_rounded fl ((t, b) # evs) s =
     (case onmessage_resume_rounded fl t b s of
        Inl e \<Rightarrow> Inl e
      | Inr s' \<Rightarrow> schedule_all_rounded fl evs s')"

fun keeping_pace_rounded :: "(real \<Rightarrow> real) \<Rightarrow> (real \<times> AudioBuffer) list \<Rightarrow> bool" where
  "keeping_pace_rounded fl ((t, b) # (t', b') # rest) =
     (t' - t < fl (duration b) \<and> keeping_pace_rounded fl ((t', b') # rest))"
| "keeping_pace_rounded fl evs = True"

text \<open>
  A list of started sources is continuous up to a cursor when every source finishes, at its
  start time plus the duration of its buffer, exactly when the next one starts, and the last
  one finishes at the cursor.
\<close>

fun continuous_until ::
  "(real \<Rightarrow> real) \<Rightarrow> (nat \<times> real \<times> AudioBuffer) list \<Rightarrow> real \<Rightarrow> bool" where
  "continuous_until fl ((k, t, b) # (k', t', b') # rest) cursor =
     (fl (t + fl (duration b)) = t' \<and> continuous_until fl ((k', t', b') # rest) cursor)"
| "continuous_until fl [(k, t, b)] cursor = (fl (t + fl (duration b)) = cursor)"
| "continuous_until fl [] cursor = True"

text \<open>The durations of a run added to a time one after the other, as the program adds them.\<close>

fun added_in_turn :: "(real \<Rightarrow> real) \<Rightarrow> real \<Rightarrow> (real \<times> AudioBuffer) list \<Rightarrow> real" where
  "added_in_turn fl x [] = x"
| "added_in_turn fl x ((t, b) # evs) = added_in_turn fl (fl (x + fl (duration b))) evs"

text \<open>The clock readings of a run are numbers of the program: rounding leaves them as they are.\<close>

definition readable :: "(real \<Rightarrow> real) \<Rightarrow> (real \<times> AudioBuffer) list \<Rightarrow> bool" where
  "readable fl evs = list_all (\<lambda>ev. fl (fst ev) = fst ev) evs"

text \<open>Closed forms of a run in the arithmetic of the program, used in the proofs.\<close>

fun plan_rounded ::
  "(real \<Rightarrow> real) \<Rightarrow> nat \<Rightarrow> real \<Rightarrow> (real \<times> AudioBuffer) list
     \<Rightarrow> (nat \<times> real \<times> AudioBuffer) list" where
  "plan_rounded fl c cur [] = []"
| "plan_rounded fl c cur ((t, b) # evs) =
     (c, max t cur, b) # plan_rounded fl c (fl (max t cur + fl (duration b))) evs"

fun end_cursor_rounded :: "(real \<Rightarrow> real) \<Rightarrow> real \<Rightarrow> (real \<times> AudioBuffer) list \<Rightarrow> real" where
  "end_cursor_rounded fl cur [] = cur"
| "end_cursor_rounded fl cur ((t, b) # evs) =
     end_cursor_rounded fl (fl (max t cur + fl (duration b))) evs"

section \<open>Encoder and decoder\<close>

text \<open>
  \<open>src/App.tsx\<close> imports \<open>decode\<close>, \<open>decodeAudioData\<close> and \<open>createBlob\<close> from
  \<open>./utils/audio\<close> (line 3); that module is not among the sources. The definitions of this
  section follow the specification of the PCM Encoder and the Audio Decoder instead. Samples
  are real numbers: the samples of the program are binary floating-point numbers, and scaling
  them by \<open>2^15\<close>, rounding to an integer and dividing a 16-bit integer by \<open>2^15\<close> are exact
  on those. Bytes are natural numbers below 256.
\<close>

text \<open>
  Modelled from the spec: the base64 alphabet of the wire format (module \<open>utils/audio\<close>,
  absent).
\<close>

definition alphabet :: string where
  "alphabet = ''ABCDEFGHIJKLMNOPQRSTUVWXYZabcdefghijklmnopqrstuvwxyz0123456789+/''"

text \<open>Modelled from the spec: the character of a six-bit value.\<close>

definition sextet :: "nat \<Rightarrow> char" where
  "sextet n = alphabet ! n"

text \<open>Modelled from the spec: the position of a character in a string, if any.\<close>

fun index_of :: "char \<Rightarrow> string \<Rightarrow> nat option" where
  "index_of c [] = None"
| "index_of c (x # xs) = (if x = c then Some 0 else map_option Suc (index_of c xs))"

text \<open>Modelled from the spec: the six-bit value of a character of the alphabet.\<close>

definition value_of :: "char \<Rightarrow> nat option" where
  "value_of c = index_of c alphabet"

text \<open>
  Modelled from the spec: "base64-encodes": three bytes become four characters, a last
  group of one or two bytes is padded with \<open>=\<close>.
\<close>

fun b64_encode :: "nat list \<Rightarrow> string" where
  "b64_encode [] = []"
| "b64_encode [a] = [sextet (a div 4), sextet ((a mod 4) * 16), CHR ''='', CHR ''='']"
| "b64_encode [a, b] =
     [sextet (a div 4), sextet ((a mod 4) * 16 + b div 16), sextet ((b mod 16) * 4), CHR ''='']"
| "b64_encode (a # b # c # rest) =
     [sextet (a div 4), sextet ((a mod 4) * 16 + b div 16),
      sextet ((b mod 16) * 4 + c div 64), sextet (c mod 64)] @ b64_encode rest"

text \<open>
  Modelled from the spec: the inverse of the base64 encoding; \<open>None\<close> for a text that is
  not well-formed base64.
\<close>

fun b64_decode :: "string \<Rightarrow> nat list option" where
  "b64_decode [] = Some []"
| "b64_decode (c1 # c2 # c3 # c4 # rest) =
     (if rest = [] \<and> c4 = CHR ''='' then
        (if c3 = CHR ''='' then
           (case (value_of c1, value_of c2) of
              (Some x, Some y) \<Rightarrow> Some [x * 4 + y div 16]
            | _ \<Rightarrow> None)
         else
           (case (value_of c1, value_of c2, value_of c3) of
              (Some x, Some y, Some z) \<Rightarrow> Some [x * 4 + y div 16, (y mod 16) * 16 + z div 4]
            | _ \<Rightarrow> None))
      else
        (case (value_of c1, value_of c2, value_of c3, value_of c4) of
           (Some x, Some y, Some z, Some w) \<Rightarrow>
             map_option (\<lambda>bytes. [x * 4 + y div 16, (y mod 16) * 16 + z div 4, (z mod 4) * 64 + w]
                                  @ bytes) (b64_decode rest)
         | _ \<Rightarrow> None))"
| "b64_decode cs = None"

text \<open>
  Modelled from the spec: conversion of a scaled sample to an integer, rounding towards
  zero as a store into a 16-bit integer array does.
\<close>

definition trunc :: "real \<Rightarrow> int" where
  "trunc y = (if 0 \<le> y then \<lfloor>y\<rfloor> else \<lceil>y\<rceil>)"

text \<open>
  Modelled from the spec: "clamps/scales each to the signed 16-bit integer range": the
  sample times \<open>2^15\<close>, as an integer, clamped to \<open>-32768 .. 32767\<close>.
\<close>

definition to_int16 :: "real \<Rightarrow> int" where
  "to_int16 x = max (- 32768) (min 32767 (trunc (x * 32768)))"

text \<open>
  Modelled from the spec: "packs little-endian": the low byte of the two's complement
  first.
\<close>

definition int16_bytes :: "int \<Rightarrow> nat list" where
  "int16_bytes q = [nat (q mod 256), nat (q div 256 mod 256)]"

text \<open>Modelled from the spec: a 16-bit pattern read as a signed integer.\<close>

definition to_signed :: "nat \<Rightarrow> int" where
  "to_signed u = (if u < 32768 then int u else int u - 65536)"

text \<open>
  Modelled from the spec: the little-endian 16-bit samples of a byte sequence; \<open>None\<close> when
  a byte is left over.
\<close>

fun int16_values :: "nat list \<Rightarrow> int list option" where
  "int16_values [] = Some []"
| "int16_values (lo # hi # rest) =
     map_option (\<lambda>qs. to_signed (lo + 256 * hi) # qs) (int16_values rest)"
| "int16_values [b] = None"

text \<open>
  Modelled from the spec: the Wire Blob, "little-endian 16-bit PCM samples,
  base64-encoded, tagged with a MIME-type-like descriptor (rate, encoding)".
\<close>

datatype encoding = PCM16LE

record WireBlob =
  payload :: string
  rate :: nat
  format :: encoding

text \<open>
  Modelled from the spec: the PCM Encoder \<open>createBlob\<close> of \<open>utils/audio\<close>, for a frame
  captured at 16 kHz.
\<close>

definition createBlob :: "real list \<Rightarrow> WireBlob" where
  "createBlob frame =
     \<lparr> payload = b64_encode (concat (map (\<lambda>x. int16_bytes (to_int16 x)) frame)),
       rate = 16000, format = PCM16LE \<rparr>"

text \<open>
  Modelled from the spec: \<open>decode\<close> of \<open>utils/audio\<close>, from the base64 text to the bytes.
\<close>

definition decode :: "string \<Rightarrow> nat list option" where
  "decode text = b64_decode text"

text \<open>
  Modelled from the spec: the Decoded Buffer, "a floating-point sample buffer plus channel
  count, sample rate".
\<close>

record DecodedBuffer =
  samples :: "real list"
  sampleRate :: nat
  channelCount :: nat

text \<open>
  Modelled from the spec: the Audio Decoder \<open>decodeAudioData\<close> of \<open>utils/audio\<close>, the
  "inverse of the above": each 16-bit sample divided by \<open>2^15\<close>, in a buffer of the
  declared sample rate and channel count.
\<close>

definition decodeAudioData :: "nat list \<Rightarrow> nat \<Rightarrow> nat \<Rightarrow> DecodedBuffer option" where
  "decodeAudioData bytes r n =
     map_option (\<lambda>qs. \<lparr> samples = map (\<lambda>q. real_of_int q / 32768) qs, sampleRate = r,
                          channelCount = n \<rparr>) (int16_values bytes)"

text \<open>
  Encoding a frame and decoding the payload, as \<open>onmessage\<close> decodes an inbound payload
  (lines 239-240: 24 kHz, one channel).
\<close>

definition roundtrip :: "real list \<Rightarrow> DecodedBuffer option" where
  "roundtrip frame =
     (case decode (payload (createBlob frame)) of
        None \<Rightarrow> None
      | Some bytes \<Rightarrow> decodeAudioData bytes 24000 1)"

section \<open>Concrete sessions used in the examples\<close>

definition env_ok :: start_env where
  "env_ok = \<lparr> getUserMedia = Inr [Live], connect = Inr Connected \<rparr>"

definition one_second :: AudioBuffer where
  "one_second = \<lparr> buf_length = 24000, buf_sampleRate = 24000, numberOfChannels = 1 \<rparr>"

text \<open>The state right after a start that succeeded from the initial state.\<close>

definition session0 :: app where
  "session0 = startConversation env_ok initial"

text \<open>Two buffers of one second, the second arriving half a second after the first.\<close>

definition in_pace :: "(real \<times> AudioBuffer) list" where
  "in_pace = [(1, one_second), (3 / 2, one_second)]"

text \<open>Two buffers of one second, the second arriving long after the first has ended.\<close>

definition with_gap :: "(real \<times> AudioBuffer) list" where
  "with_gap = [(1, one_second), (5, one_second)]"

text \<open>A start at which the permission for the microphone is denied.\<close>

definition env_denied :: start_env where
  "env_denied = \<lparr> getUserMedia = Inl PermissionDenied, connect = Inr Connected \<rparr>"

text \<open>A message that carries an input transcription and nothing else.\<close>

definition transcription_message :: "bool option \<Rightarrow> LiveServerMessage" where
  "transcription_message final =
     \<lparr> serverContent = Some \<lparr> inputTranscription = Some \<lparr> isFinal = final \<rparr>,
          turnComplete = None, modelTurn = None \<rparr> \<rparr>"

text \<open>A message that carries inline audio and nothing else.\<close>

definition audio_message :: LiveServerMessage where
  "audio_message =
     \<lparr> serverContent = Some \<lparr> inputTranscription = None, turnComplete = None,
          modelTurn = Some \<lparr> parts = Some [\<lparr> inlineData = Some \<lparr> data = Some ''AAAA'' \<rparr> \<rparr>] \<rparr> \<rparr> \<rparr>"

definition five_seconds :: AudioBuffer where
  "five_seconds = \<lparr> buf_length = 120000, buf_sampleRate = 24000, numberOfChannels = 1 \<rparr>"

text \<open>
  The session after a buffer of five seconds was scheduled at clock reading 0, and the same
  after \<open>stopConversation\<close>.
\<close>

definition playing :: app where
  "playing = session0\<lparr>started := [(1, 0, five_seconds)], nextStartTimeRef := 5\<rparr>"

definition halted :: app where
  "halted = playing\<lparr>isSessionActive := False, agentStatus := Idle, nextStartTimeRef := 0,
     sessionRef := None, micStreamRef := None, sessions := [Disconnected],
     streams := [[Ended]],
     contexts := [\<lparr>ctx_state = Closed, ctx_sampleRate = 16000\<rparr>,
                  \<lparr>ctx_state = Closed, ctx_sampleRate = 24000\<rparr>]\<rparr>"

text \<open>An environment in which closing the session throws.\<close>

definition close_throws :: "call \<Rightarrow> bool" where
  "close_throws c = (c = SessionClose)"

text \<open>
  A coarse rounding, to the nearest multiple of one sixteenth, and a buffer of a tenth of a
  second, whose duration it rounds to one eighth.
\<close>

definition sixteenths :: "real \<Rightarrow> real" where
  "sixteenths x = real_of_int \<lfloor>x * 16 + 1 / 2\<rfloor> / 16"

definition tenth_second :: AudioBuffer where
  "tenth_second = \<lparr> buf_length = 2400, buf_sampleRate = 24000, numberOfChannels = 1 \<rparr>"

text \<open>Two more such buffers, arriving one sixteenth apart after a first one at clock reading 1.\<close>

definition later_two :: "(real \<times> AudioBuffer) list" where
  "later_two = [(17 / 16, tenth_second), (9 / 8, tenth_second)]"

text \<open>
  A start at which the microphone is granted and the connection fails, and the state it
  leaves behind when it begins in the initial state.
\<close>

definition env_no_connection :: start_env where
  "env_no_connection = \<lparr> getUserMedia = Inr [Live], connect = Inl ConnectionFailure \<rparr>"

definition leaked :: app where
  "leaked = initial\<lparr>agentStatus := Error, micStreamRef := Some 0, audioContextRef := Some 0,
     outputAudioContextRef := Some 1, analyserNodeRef := Some 0, streams := [[Live]],
     contexts := [\<lparr>ctx_state = Running, ctx_sampleRate = 16000\<rparr>,
                  \<lparr>ctx_state = Running, ctx_sampleRate = 24000\<rparr>],
     nodes := [True]\<rparr>"

text \<open>A frame of five samples, with both ends of the range.\<close>

definition test_frame :: "real list" where
  "test_frame = [0, 1, - 1, 1 / 2, - (1 / 3)]"

section \<open>Basic facts\<close>

lemma duration_nonneg: "0 \<le> duration b"
  by (simp add: duration_def)

lemma duration_one_second: "duration one_second = 1"
  by (simp add: duration_def one_second_def)

lemma session0_eq:
  "session0 = \<lparr> isSessionActive = True, agentStatus = Listening, sessionRef = Some 0,
     micStreamRef = Some 0, audioContextRef = Some 0, scriptProcessorRef = None,
     mediaStreamSourceRef = None, outputAudioContextRef = Some 1, analyserNodeRef = Some 0,
     nextStartTimeRef = 0, sessions = [Connected], streams = [[Live]],
     contexts = [\<lparr>ctx_state = Running, ctx_sampleRate = 16000\<rparr>,
                 \<lparr>ctx_state = Running, ctx_sampleRate = 24000\<rparr>],
     nodes = [True], started = [] \<rparr>"
  by (simp add: session0_def startConversation_def startConversation_begin_def
      startConversation_media_def startConversation_connected_def env_ok_def initial_def Let_def)

section \<open>The playback scheduler\<close>

text \<open>
  Claim C1, as amended. Whenever the scheduler runs (the output context and the analyser are
  present), the source is started at the maximum of the clock reading and the cursor, and the
  cursor becomes that start time plus the duration of the buffer; hence right after the
  scheduling the cursor is at or after the clock reading taken for it.
\<close>

theorem scheduler_step:
  assumes "outputAudioContextRef s = Some c" and "analyserNodeRef s = Some a"
  shows "onmessage_resume now buf s =
           Inr (s\<lparr>started := started s @ [(c, max now (nextStartTimeRef s), buf)],
                   nextStartTimeRef := max now (nextStartTimeRef s) + duration buf\<rparr>)
         \<and> now \<le> max now (nextStartTimeRef s) + duration buf"
proof -
  have "now \<le> max now (nextStartTimeRef s)" by simp
  moreover have "0 \<le> duration buf" by (rule duration_nonneg)
  ultimately have "now \<le> max now (nextStartTimeRef s) + duration buf" by linarith
  with assms show ?thesis by (simp add: onmessage_resume_def Let_def)
qed

theorem scheduler_step_witness:
  "outputAudioContextRef session0 = Some 1 \<and> analyserNodeRef session0 = Some 0 \<and>
   onmessage_resume 1 one_second session0 =
     Inr (session0\<lparr>started := [(1, 1, one_second)], nextStartTimeRef := 2\<rparr>)"
  using scheduler_step [of session0 1 0 1 one_second]
  by (simp add: session0_eq duration_one_second)

text \<open>
  Claim C1 as stated fails in its last part: the cursor that the scheduler reads can be
  behind the clock. In a fresh session the cursor is 0; a buffer scheduled when the clock
  reads 1 is scheduled, and the cursor read for it is not at or after the clock.
\<close>

theorem cursor_behind_clock:
  "onmessage_resume 1 one_second session0 =
     Inr (session0\<lparr>started := [(1, 1, one_second)], nextStartTimeRef := 2\<rparr>)
   \<and> \<not> (1 \<le> nextStartTimeRef session0)"
  by (simp add: session0_eq onmessage_resume_def duration_one_second)

section \<open>Runs of the scheduler: closed forms\<close>

lemma schedule_all_plan:
  assumes "outputAudioContextRef s = Some c" and "analyserNodeRef s = Some a"
  shows "schedule_all evs s =
           Inr (s\<lparr>started := started s @ plan c (nextStartTimeRef s) evs,
                   nextStartTimeRef := end_cursor (nextStartTimeRef s) evs\<rparr>)"
  using assms
proof (induction evs arbitrary: s)
  case Nil
  then show ?case by simp
next
  case (Cons ev evs)
  obtain t b where ev: "ev = (t, b)" by (cases ev)
  let ?s1 = "s\<lparr>started := started s @ [(c, max t (nextStartTimeRef s), b)],
                nextStartTimeRef := max t (nextStartTimeRef s) + duration b\<rparr>"
  have step: "onmessage_resume t b s = Inr ?s1"
    using Cons.prems by (simp add: onmessage_resume_def Let_def)
  have "schedule_all evs ?s1 =
          Inr (?s1\<lparr>started := started ?s1 @ plan c (nextStartTimeRef ?s1) evs,
                    nextStartTimeRef := end_cursor (nextStartTimeRef ?s1) evs\<rparr>)"
    by (rule Cons.IH) (simp_all add: Cons.prems)
  with step show ?case by (simp add: ev)
qed

lemma cursors_values:
  assumes "outputAudioContextRef s = Some c" and "analyserNodeRef s = Some a"
  shows "cursors evs s = cursor_values (nextStartTimeRef s) evs"
  using assms
proof (induction evs arbitrary: s)
  case Nil
  then show ?case by simp
next
  case (Cons ev evs)
  obtain t b where ev: "ev = (t, b)" by (cases ev)
  let ?s1 = "s\<lparr>started := started s @ [(c, max t (nextStartTimeRef s), b)],
                nextStartTimeRef := max t (nextStartTimeRef s) + duration b\<rparr>"
  have step: "onmessage_resume t b s = Inr ?s1"
    using Cons.prems by (simp add: onmessage_resume_def Let_def)
  have "cursors evs ?s1 = cursor_values (nextStartTimeRef ?s1) evs"
    by (rule Cons.IH) (simp_all add: Cons.prems)
  with step show ?case by (simp add: ev)
qed

lemma length_plan: "length (plan c cur evs) = length evs"
  by (induction evs arbitrary: cur) auto

lemma buffers_plan: "map (snd \<circ> snd) (plan c cur evs) = map snd evs"
  by (induction evs arbitrary: cur) auto

lemma no_overlap_plan: "no_overlap (plan c cur evs)"
proof (induction evs arbitrary: cur)
  case Nil
  then show ?case by simp
next
  case (Cons ev evs)
  obtain t b where ev: "ev = (t, b)" by (cases ev)
  show ?case
  proof (cases evs)
    case Nil
    then show ?thesis by (simp add: ev)
  next
    case (Cons ev' evs')
    obtain t' b' where ev': "ev' = (t', b')" by (cases ev')
    have "no_overlap (plan c (max t cur + duration b) evs)" by (rule Cons.IH)
    then show ?thesis by (simp add: ev ev' Cons)
  qed
qed

lemma cursor_values_sorted: "sorted (cur # cursor_values cur evs)"
proof (induction evs arbitrary: cur)
  case Nil
  then show ?case by simp
next
  case (Cons ev evs)
  obtain t b where ev: "ev = (t, b)" by (cases ev)
  have s: "sorted ((max t cur + duration b) # cursor_values (max t cur + duration b) evs)"
    by (rule Cons.IH)
  have le: "cur \<le> max t cur + duration b"
    using duration_nonneg [of b] by linarith
  from s le show ?case by (auto simp: ev)
qed

lemma length_cursor_values: "length (cursor_values cur evs) = length evs"
  by (induction evs arbitrary: cur) auto

section \<open>Runs in the arithmetic of the program: closed forms\<close>

lemma onmessage_resume_unrounded:
  "onmessage_resume_rounded (\<lambda>x. x) t b s = onmessage_resume t b s"
  by (simp add: onmessage_resume_rounded_def onmessage_resume_def)

lemma schedule_all_unrounded: "schedule_all_rounded (\<lambda>x. x) evs s = schedule_all evs s"
  by (induction evs arbitrary: s) (auto simp: onmessage_resume_unrounded split: sum.splits)

lemma keeping_pace_unrounded: "keeping_pace_rounded (\<lambda>x. x) evs = keeping_pace evs"
  by (induction evs rule: keeping_pace.induct) auto

lemma added_in_turn_unrounded: "added_in_turn (\<lambda>x. x) x evs = x + total_duration evs"
  by (induction evs arbitrary: x) (auto simp: total_duration_def)

lemma schedule_all_rounded_plan:
  assumes "outputAudioContextRef s = Some c" and "analyserNodeRef s = Some a"
  shows "schedule_all_rounded fl evs s =
           Inr (s\<lparr>started := started s @ plan_rounded fl c (nextStartTimeRef s) evs,
                   nextStartTimeRef := end_cursor_rounded fl (nextStartTimeRef s) evs\<rparr>)"
  using assms
proof (induction evs arbitrary: s)
  case Nil
  then show ?case by simp
next
  case (Cons ev evs)
  obtain t b where ev: "ev = (t, b)" by (cases ev)
  let ?s1 = "s\<lparr>started := started s @ [(c, max t (nextStartTimeRef s), b)],
                nextStartTimeRef := fl (max t (nextStartTimeRef s) + fl (duration b))\<rparr>"
  have step: "onmessage_resume_rounded fl t b s = Inr ?s1"
    using Cons.prems by (simp add: onmessage_resume_rounded_def Let_def)
  have "schedule_all_rounded fl evs ?s1 =
          Inr (?s1\<lparr>started := started ?s1 @ plan_rounded fl c (nextStartTimeRef ?s1) evs,
                    nextStartTimeRef := end_cursor_rounded fl (nextStartTimeRef ?s1) evs\<rparr>)"
    by (rule Cons.IH) (simp_all add: Cons.prems)
  with step show ?case by (simp add: ev)
qed

lemma plan_rounded_in_pace:
  assumes "mono fl" and "readable fl evs" and "keeping_pace_rounded fl ((t, b) # evs)"
    and "t \<le> st"
  shows "continuous_until fl ((c, st, b) # plan_rounded fl c (fl (st + fl (duration b))) evs)
           (end_cursor_rounded fl (fl (st + fl (duration b))) evs)
       \<and> end_cursor_rounded fl (fl (st + fl (duration b))) evs
           = added_in_turn fl (fl (st + fl (duration b))) evs"
  using assms(2-)
proof (induction evs arbitrary: t b st)
  case Nil
  then show ?case by simp
next
  case (Cons ev evs)
  obtain t' b' where ev: "ev = (t', b')" by (cases ev)
  let ?cur = "fl (st + fl (duration b))"
  from Cons.prems ev have gap: "t' - t < fl (duration b)"
    and rest: "keeping_pace_rounded fl ((t', b') # evs)"
    and rep: "fl t' = t'" and more: "readable fl evs"
    by (simp_all add: readable_def)
  from gap \<open>t \<le> st\<close> have "t' \<le> st + fl (duration b)" by linarith
  with \<open>mono fl\<close> have "fl t' \<le> ?cur" by (rule monoD)
  with rep have late: "t' \<le> ?cur" by simp
  then have m: "max t' ?cur = ?cur" by simp
  have "continuous_until fl
          ((c, ?cur, b') # plan_rounded fl c (fl (?cur + fl (duration b'))) evs)
          (end_cursor_rounded fl (fl (?cur + fl (duration b'))) evs)
       \<and> end_cursor_rounded fl (fl (?cur + fl (duration b'))) evs
           = added_in_turn fl (fl (?cur + fl (duration b'))) evs"
    using more rest late by (rule Cons.IH)
  then show ?case by (auto simp: ev m)
qed

lemma mono_sixteenths: "mono sixteenths"
proof (rule monoI)
  fix x y :: real
  assume "x \<le> y"
  then have "\<lfloor>x * 16 + 1 / 2\<rfloor> \<le> \<lfloor>y * 16 + 1 / 2\<rfloor>" by (intro floor_mono) simp
  then show "sixteenths x \<le> sixteenths y"
    by (simp add: sixteenths_def divide_right_mono)
qed

lemma sixteenths_tenth: "sixteenths (duration tenth_second) = 1 / 8"
  by (simp add: sixteenths_def duration_def tenth_second_def)

lemma in_pace_run:
  "schedule_all_rounded sixteenths ((1, tenth_second) # later_two) session0 =
     Inr (session0\<lparr>started := [(1, 1, tenth_second), (1, 9 / 8, tenth_second),
                                 (1, 5 / 4, tenth_second)],
                    nextStartTimeRef := 11 / 8\<rparr>)"
  by (simp add: later_two_def session0_eq onmessage_resume_rounded_def sixteenths_def
      duration_def tenth_second_def)

section \<open>No overlap, monotone cursor\<close>

text \<open>
  Claim C2. Buffers scheduled one after the other in one session, at arbitrary clock readings:
  all of them are scheduled, in arrival order; none starts before the start of the one before
  plus its duration; and the cursor never decreases from one buffer to the next.
\<close>

theorem scheduler_no_overlap:
  assumes "outputAudioContextRef s = Some c" and "analyserNodeRef s = Some a"
  shows "\<exists>s'. schedule_all evs s = Inr s'
           \<and> length (newly_started s s') = length evs
           \<and> map (snd \<circ> snd) (newly_started s s') = map snd evs
           \<and> no_overlap (newly_started s s')
           \<and> length (cursors evs s) = length evs
           \<and> sorted (nextStartTimeRef s # cursors evs s)"
proof -
  let ?s' = "s\<lparr>started := started s @ plan c (nextStartTimeRef s) evs,
               nextStartTimeRef := end_cursor (nextStartTimeRef s) evs\<rparr>"
  have run: "schedule_all evs s = Inr ?s'"
    using assms by (rule schedule_all_plan)
  have new: "newly_started s ?s' = plan c (nextStartTimeRef s) evs"
    by (simp add: newly_started_def)
  have cur: "cursors evs s = cursor_values (nextStartTimeRef s) evs"
    using assms by (rule cursors_values)
  show ?thesis
    using run new cur
    by (simp add: length_plan buffers_plan no_overlap_plan length_cursor_values
        cursor_values_sorted del: sorted_wrt.simps)
qed


theorem scheduler_no_overlap_witness:
  "outputAudioContextRef session0 = Some 1 \<and> analyserNodeRef session0 = Some 0
   \<and> schedule_all with_gap session0 =
       Inr (session0\<lparr>started := [(1, 1, one_second), (1, 5, one_second)],
                      nextStartTimeRef := 6\<rparr>)
   \<and> cursors with_gap session0 = [2, 6]
   \<and> no_overlap (newly_started session0
         (session0\<lparr>started := [(1, 1, one_second), (1, 5, one_second)],
                    nextStartTimeRef := 6\<rparr>))
   \<and> sorted (nextStartTimeRef session0 # cursors with_gap session0)"
proof -
  have ctx: "outputAudioContextRef session0 = Some 1"
    and ana: "analyserNodeRef session0 = Some 0"
    by (simp_all add: session0_eq)
  have cur: "cursors with_gap session0 = [2, 6]"
    by (simp add: with_gap_def session0_eq onmessage_resume_def duration_one_second)
  have run: "schedule_all with_gap session0 =
      Inr (session0\<lparr>started := [(1, 1, one_second), (1, 5, one_second)],
                     nextStartTimeRef := 6\<rparr>)"
    by (simp add: with_gap_def session0_eq onmessage_resume_def duration_one_second)
  from scheduler_no_overlap [OF ctx ana, of with_gap] run
  have apart: "no_overlap (newly_started session0
          (session0\<lparr>started := [(1, 1, one_second), (1, 5, one_second)],
                     nextStartTimeRef := 6\<rparr>))"
    and mono: "sorted (nextStartTimeRef session0 # cursors with_gap session0)"
    by auto
  show ?thesis
    by (intro conjI) (rule ctx ana run cur apart mono)+
qed

section \<open>Arrivals that keep pace\<close>

text \<open>
  Claim C7, as amended. In the arithmetic of the program (any monotone rounding that leaves
  the clock readings as they are): when every buffer arrives less than the duration of the
  one before after it, all buffers are scheduled; the first starts at the maximum of the
  clock reading and the cursor before; every later one starts exactly at the cursor that the
  one before left, the clock time at which that one finishes; and the cursor after the run,
  the clock time at which the last buffer finishes, is the start time of the first buffer
  with the durations added to it one after the other. It is the cursor before with the
  durations added when the first buffer arrived no later than the cursor before.
\<close>

theorem keeping_pace_continuous:
  assumes "outputAudioContextRef s = Some c" and "analyserNodeRef s = Some a"
    and "mono fl" and "readable fl evs" and "keeping_pace_rounded fl ((t, b) # evs)"
  shows "\<exists>s'. schedule_all_rounded fl ((t, b) # evs) s = Inr s'
           \<and> length (newly_started s s') = Suc (length evs)
           \<and> fst (snd (hd (newly_started s s'))) = max t (nextStartTimeRef s)
           \<and> continuous_until fl (newly_started s s') (nextStartTimeRef s')
           \<and> nextStartTimeRef s' = added_in_turn fl (max t (nextStartTimeRef s)) ((t, b) # evs)
           \<and> (t \<le> nextStartTimeRef s \<longrightarrow>
                nextStartTimeRef s' = added_in_turn fl (nextStartTimeRef s) ((t, b) # evs))"
proof -
  let ?st = "max t (nextStartTimeRef s)"
  let ?cur = "fl (?st + fl (duration b))"
  let ?s' = "s\<lparr>started := started s @ plan_rounded fl c (nextStartTimeRef s) ((t, b) # evs),
               nextStartTimeRef := end_cursor_rounded fl (nextStartTimeRef s) ((t, b) # evs)\<rparr>"
  have run: "schedule_all_rounded fl ((t, b) # evs) s = Inr ?s'"
    using assms(1,2) by (rule schedule_all_rounded_plan)
  have new: "newly_started s ?s' = (c, ?st, b) # plan_rounded fl c ?cur evs"
    by (simp add: newly_started_def)
  have cur: "nextStartTimeRef ?s' = end_cursor_rounded fl ?cur evs"
    by simp
  have "t \<le> ?st" by simp
  with assms(3,4,5) have pace:
    "continuous_until fl ((c, ?st, b) # plan_rounded fl c ?cur evs)
        (end_cursor_rounded fl ?cur evs)
     \<and> end_cursor_rounded fl ?cur evs = added_in_turn fl ?cur evs"
    by (rule plan_rounded_in_pace)
  have len: "length (plan_rounded fl c x evs) = length evs" for x
    by (induction evs arbitrary: x) auto
  have 1: "length (newly_started s ?s') = Suc (length evs)"
    using new len by simp
  have 2: "fst (snd (hd (newly_started s ?s'))) = ?st"
    using new by simp
  have 3: "continuous_until fl (newly_started s ?s') (nextStartTimeRef ?s')"
    unfolding new cur using pace by (rule conjunct1)
  have "end_cursor_rounded fl ?cur evs = added_in_turn fl ?cur evs"
    using pace by (rule conjunct2)
  with cur have 4: "nextStartTimeRef ?s' = added_in_turn fl ?st ((t, b) # evs)"
    by simp
  have 5: "t \<le> nextStartTimeRef s \<longrightarrow>
      nextStartTimeRef ?s' = added_in_turn fl (nextStartTimeRef s) ((t, b) # evs)"
  proof
    assume "t \<le> nextStartTimeRef s"
    then have "?st = nextStartTimeRef s" by simp
    with 4 show "nextStartTimeRef ?s' = added_in_turn fl (nextStartTimeRef s) ((t, b) # evs)"
      by simp
  qed
  from run 1 2 3 4 5 show ?thesis by blast
qed

theorem keeping_pace_continuous_witness:
  "outputAudioContextRef session0 = Some 1 \<and> analyserNodeRef session0 = Some 0
   \<and> mono sixteenths \<and> readable sixteenths later_two
   \<and> keeping_pace_rounded sixteenths ((1, tenth_second) # later_two)
   \<and> schedule_all_rounded sixteenths ((1, tenth_second) # later_two) session0 =
       Inr (session0\<lparr>started := [(1, 1, tenth_second), (1, 9 / 8, tenth_second),
                                   (1, 5 / 4, tenth_second)],
                      nextStartTimeRef := 11 / 8\<rparr>)
   \<and> continuous_until sixteenths
        [(1, 1, tenth_second), (1, 9 / 8, tenth_second), (1, 5 / 4, tenth_second)] (11 / 8)
   \<and> added_in_turn sixteenths 1 ((1, tenth_second) # later_two) = 11 / 8"
proof -
  have ctx: "outputAudioContextRef session0 = Some 1"
    and ana: "analyserNodeRef session0 = Some 0"
    by (simp_all add: session0_eq)
  have rd: "readable sixteenths later_two"
    by (simp add: readable_def later_two_def sixteenths_def)
  have pace: "keeping_pace_rounded sixteenths ((1, tenth_second) # later_two)"
    by (simp add: later_two_def sixteenths_tenth)
  have zero: "nextStartTimeRef session0 = 0"
    by (simp add: session0_eq)
  from keeping_pace_continuous [OF ctx ana mono_sixteenths rd pace] in_pace_run zero
  have cont: "continuous_until sixteenths
        [(1, 1, tenth_second), (1, 9 / 8, tenth_second), (1, 5 / 4, tenth_second)] (11 / 8)"
    and sum: "added_in_turn sixteenths 1 ((1, tenth_second) # later_two) = 11 / 8"
    by (simp_all add: newly_started_def session0_eq)
  show ?thesis
    by (intro conjI) (rule ctx ana mono_sixteenths rd pace in_pace_run cont sum)+
qed

text \<open>
  Claim C7 as stated fails: the cursor can advance by more than the sum of the durations.
  In a fresh session the cursor is 0; two buffers of one second arrive at clock readings 1
  and 1.5, in pace. The cursor ends at 3: it advanced by 3, the durations sum to 2.
\<close>

theorem cursor_advance_not_total:
  "keeping_pace in_pace
   \<and> schedule_all in_pace session0 =
       Inr (session0\<lparr>started := [(1, 1, one_second), (1, 2, one_second)],
                      nextStartTimeRef := 3\<rparr>)
   \<and> total_duration in_pace = 2
   \<and> nextStartTimeRef (session0\<lparr>started := [(1, 1, one_second), (1, 2, one_second)],
                                 nextStartTimeRef := 3\<rparr>) - nextStartTimeRef session0
       \<noteq> total_duration in_pace"
  by (simp add: in_pace_def session0_eq onmessage_resume_def duration_one_second
      total_duration_def)

section \<open>stopConversation: closed form\<close>

lemma and_then_Inr: "and_then r f = Inr s' \<longleftrightarrow> (\<exists>x. r = Inr x \<and> f x = Inr s')"
  by (cases r) (simp_all add: and_then_def)

lemma close_session_Inr:
  "close_session t s = Inr s' \<Longrightarrow>
     s' = s\<lparr>sessionRef := None, sessions := put_at (sessionRef s) Disconnected (sessions s)\<rparr>"
  by (cases s) (auto simp: close_session_def put_at_def split: option.splits if_splits)

lemma stop_tracks_Inr:
  "stop_tracks t s = Inr s' \<Longrightarrow>
     s' = s\<lparr>micStreamRef := None, streams := end_at (micStreamRef s) (streams s)\<rparr>"
  by (cases s) (auto simp: stop_tracks_def end_at_def split: option.splits if_splits)

lemma disconnect_processor_Inr:
  "disconnect_processor t s = Inr s' \<Longrightarrow>
     s' = s\<lparr>scriptProcessorRef := None, nodes := put_at (scriptProcessorRef s) False (nodes s)\<rparr>"
  by (cases s) (auto simp: disconnect_processor_def put_at_def split: option.splits if_splits)

lemma disconnect_source_Inr:
  "disconnect_source t s = Inr s' \<Longrightarrow>
     s' = s\<lparr>mediaStreamSourceRef := None,
            nodes := put_at (mediaStreamSourceRef s) False (nodes s)\<rparr>"
  by (cases s) (auto simp: disconnect_source_def put_at_def split: option.splits if_splits)

lemma close_again: "ctx_state c = Closed \<Longrightarrow> c\<lparr>ctx_state := Closed\<rparr> = c"
  by (cases c) simp

lemma close_input_context_Inr:
  "close_input_context t s = Inr s' \<Longrightarrow>
     s' = s\<lparr>contexts := close_at (audioContextRef s) (contexts s)\<rparr>"
  by (cases s) (auto simp: close_input_context_def close_at_def close_again
      split: option.splits if_splits)

lemma close_output_context_Inr:
  "close_output_context t s = Inr s' \<Longrightarrow>
     s' = s\<lparr>contexts := close_at (outputAudioContextRef s) (contexts s)\<rparr>"
  by (cases s) (auto simp: close_output_context_def close_at_def close_again
      split: option.splits if_splits)

lemma stopConversation_Inr:
  assumes "stopConversation t s = Inr s'"
  shows "s' = stopped s"
proof -
  from assms obtain s1 s2 s3 s4 s5 s6 where
    1: "close_session t s = Inr s1" and 2: "stop_tracks t s1 = Inr s2"
    and 3: "disconnect_processor t s2 = Inr s3" and 4: "disconnect_source t s3 = Inr s4"
    and 5: "close_input_context t s4 = Inr s5" and 6: "close_output_context t s5 = Inr s6"
    and 7: "s' = reset_state s6"
    unfolding stopConversation_def and_then_Inr by auto
  show ?thesis
    unfolding 7 close_output_context_Inr [OF 6] close_input_context_Inr [OF 5]
      disconnect_source_Inr [OF 4] disconnect_processor_Inr [OF 3]
      stop_tracks_Inr [OF 2] close_session_Inr [OF 1]
    by (simp add: reset_state_def stopped_def)
qed

lemma no_throw_steps:
  assumes "\<And>c. \<not> t c"
  shows "close_session t s = Inr (s\<lparr>sessionRef := None, sessions := put_at (sessionRef s) Disconnected (sessions s)\<rparr>)"
  and "stop_tracks t s = Inr (s\<lparr>micStreamRef := None, streams := end_at (micStreamRef s) (streams s)\<rparr>)"
  and "disconnect_processor t s = Inr (s\<lparr>scriptProcessorRef := None, nodes := put_at (scriptProcessorRef s) False (nodes s)\<rparr>)"
  and "disconnect_source t s = Inr (s\<lparr>mediaStreamSourceRef := None,
            nodes := put_at (mediaStreamSourceRef s) False (nodes s)\<rparr>)"
  and "close_input_context t s = Inr (s\<lparr>contexts := close_at (audioContextRef s) (contexts s)\<rparr>)"
  and "close_output_context t s = Inr (s\<lparr>contexts := close_at (outputAudioContextRef s) (contexts s)\<rparr>)"
  using assms
  by (cases s; auto simp: close_session_def stop_tracks_def disconnect_processor_def
      disconnect_source_def close_input_context_def close_output_context_def
      put_at_def end_at_def close_at_def close_again split: option.splits)+

lemma stopConversation_no_throw:
  assumes "\<And>c. \<not> t c"
  shows "stopConversation t s = Inr (stopped s)"
  by (simp add: stopConversation_def and_then_def no_throw_steps [OF assms]
      reset_state_def stopped_def)


lemma nth_put_at_same: "i < length xs \<Longrightarrow> put_at (Some i) v xs ! i = v"
  by (simp add: put_at_def)

lemma nth_put_at_kept:
  assumes "i < length xs" and "xs ! i = v"
  shows "put_at r v xs ! i = v"
proof (cases r)
  case None
  with assms show ?thesis by (simp add: put_at_def)
next
  case (Some a)
  show ?thesis
  proof (cases "a = i")
    case True
    with assms Some show ?thesis by (simp add: put_at_def)
  next
    case False
    with assms Some show ?thesis by (simp add: put_at_def)
  qed
qed

lemma refs_ok_in_store:
  assumes "refs_ok s"
  shows "sessionRef s = Some i \<Longrightarrow> i < length (sessions s)"
    and "micStreamRef s = Some i \<Longrightarrow> i < length (streams s)"
    and "audioContextRef s = Some i \<Longrightarrow> i < length (contexts s)"
    and "scriptProcessorRef s = Some i \<Longrightarrow> i < length (nodes s)"
    and "mediaStreamSourceRef s = Some i \<Longrightarrow> i < length (nodes s)"
    and "outputAudioContextRef s = Some i \<Longrightarrow> i < length (contexts s)"
    and "analyserNodeRef s = Some i \<Longrightarrow> i < length (nodes s)"
  using assms by (simp_all add: refs_ok_def in_store_def)

lemma length_put_at: "length (put_at r v xs) = length xs"
  by (cases r) (auto simp: put_at_def)

lemma length_close_at: "length (close_at r cs) = length cs"
  by (cases r) (auto simp: close_at_def)

lemma closed_close_at_same:
  "i < length cs \<Longrightarrow> ctx_state (close_at (Some i) cs ! i) = Closed"
  by (simp add: close_at_def)

lemma closed_close_at_kept:
  assumes "i < length cs" and "ctx_state (cs ! i) = Closed"
  shows "ctx_state (close_at r cs ! i) = Closed"
proof (cases r)
  case None
  with assms show ?thesis by (simp add: close_at_def)
next
  case (Some a)
  show ?thesis
  proof (cases "a < length cs")
    case True
    with assms Some show ?thesis by (auto simp: close_at_def nth_list_update)
  next
    case False
    with assms Some show ?thesis by (simp add: close_at_def)
  qed
qed

lemma ended_end_at:
  "i < length xs \<Longrightarrow> list_all (\<lambda>track. track = Ended) (end_at (Some i) xs ! i)"
  by (simp add: end_at_def list_all_iff)

lemma refs_ok_session0: "refs_ok session0"
  by (simp add: session0_eq refs_ok_def in_store_def)

lemma refs_ok_initial: "refs_ok initial"
  by (simp add: initial_def refs_ok_def in_store_def)

lemma stop_session0:
  "stopConversation no_throw session0 =
     Inr (session0\<lparr>isSessionActive := False, agentStatus := Idle, sessionRef := None,
            micStreamRef := None, sessions := [Disconnected], streams := [[Ended]],
            contexts := [\<lparr>ctx_state = Closed, ctx_sampleRate = 16000\<rparr>,
                         \<lparr>ctx_state = Closed, ctx_sampleRate = 24000\<rparr>]\<rparr>)"
  by (simp add: session0_eq stopConversation_def and_then_def close_session_def stop_tracks_def
      disconnect_processor_def disconnect_source_def close_input_context_def
      close_output_context_def reset_state_def no_throw_def)

lemma stopConversation_status:
  "stopConversation t s = Inr s' \<Longrightarrow> agentStatus s' = Idle \<and> \<not> isSessionActive s'"
  by (auto dest: stopConversation_Inr simp: stopped_def)

lemma onerror_never_Error:
  "onerror t s = Inr s' \<Longrightarrow> agentStatus s' = Idle"
  by (auto simp: onerror_def dest: stopConversation_status)

lemma stop_again:
  assumes "sessionRef u = None" "micStreamRef u = None" "scriptProcessorRef u = None"
    "mediaStreamSourceRef u = None"
    "\<forall>i. audioContextRef u = Some i \<longrightarrow> ctx_state (contexts u ! i) = Closed"
    "\<forall>i. outputAudioContextRef u = Some i \<longrightarrow> ctx_state (contexts u ! i) = Closed"
    "\<not> isSessionActive u" "agentStatus u = Idle" "nextStartTimeRef u = 0"
  shows "stopConversation t u = Inr u"
  using assms
  by (cases u) (auto simp: stopConversation_def and_then_def close_session_def stop_tracks_def
      disconnect_processor_def disconnect_source_def close_input_context_def
      close_output_context_def reset_state_def split: option.splits)


section \<open>Teardown\<close>

text \<open>
  Claim C9, as amended. When no teardown call throws, \<open>stopConversation\<close> returns; the
  status is Idle, the session inactive, the cursor 0; and each resource that was referenced,
  whichever of the others were absent, is torn down: the session disconnected, every track of
  the capture stream ended, the processor and the source node disconnected, the input and
  the output context closed.
\<close>

theorem stopConversation_tears_down:
  assumes "refs_ok s" and "\<forall>c. \<not> throws c"
  shows "\<exists>s'. stopConversation throws s = Inr s'
     \<and> agentStatus s' = Idle \<and> \<not> isSessionActive s' \<and> nextStartTimeRef s' = 0
     \<and> sessionRef s' = None \<and> micStreamRef s' = None
     \<and> scriptProcessorRef s' = None \<and> mediaStreamSourceRef s' = None
     \<and> (\<forall>i. sessionRef s = Some i \<longrightarrow> sessions s' ! i = Disconnected)
     \<and> (\<forall>i. micStreamRef s = Some i \<longrightarrow> list_all (\<lambda>track. track = Ended) (streams s' ! i))
     \<and> (\<forall>i. scriptProcessorRef s = Some i \<longrightarrow> \<not> nodes s' ! i)
     \<and> (\<forall>i. mediaStreamSourceRef s = Some i \<longrightarrow> \<not> nodes s' ! i)
     \<and> (\<forall>i. audioContextRef s = Some i \<longrightarrow> ctx_state (contexts s' ! i) = Closed)
     \<and> (\<forall>i. outputAudioContextRef s = Some i \<longrightarrow> ctx_state (contexts s' ! i) = Closed)"
proof -
  from assms(2) have run: "stopConversation throws s = Inr (stopped s)"
    by (intro stopConversation_no_throw) simp
  have cells: "agentStatus (stopped s) = Idle" "\<not> isSessionActive (stopped s)"
    "nextStartTimeRef (stopped s) = 0" "sessionRef (stopped s) = None"
    "micStreamRef (stopped s) = None" "scriptProcessorRef (stopped s) = None"
    "mediaStreamSourceRef (stopped s) = None"
    by (simp_all add: stopped_def)
  have ses: "\<forall>i. sessionRef s = Some i \<longrightarrow> sessions (stopped s) ! i = Disconnected"
    using refs_ok_in_store(1) [OF assms(1)] by (simp add: stopped_def nth_put_at_same)
  have mic: "\<forall>i. micStreamRef s = Some i \<longrightarrow>
      list_all (\<lambda>track. track = Ended) (streams (stopped s) ! i)"
    using refs_ok_in_store(2) [OF assms(1)] by (simp add: stopped_def ended_end_at)
  have proc: "\<forall>i. scriptProcessorRef s = Some i \<longrightarrow> \<not> nodes (stopped s) ! i"
    using refs_ok_in_store(4) [OF assms(1)]
    by (simp add: stopped_def nth_put_at_same nth_put_at_kept length_put_at)
  have src: "\<forall>i. mediaStreamSourceRef s = Some i \<longrightarrow> \<not> nodes (stopped s) ! i"
    using refs_ok_in_store(5) [OF assms(1)]
    by (simp add: stopped_def nth_put_at_same length_put_at)
  have inp: "\<forall>i. audioContextRef s = Some i \<longrightarrow> ctx_state (contexts (stopped s) ! i) = Closed"
    using refs_ok_in_store(3) [OF assms(1)]
    by (simp add: stopped_def closed_close_at_kept closed_close_at_same length_close_at)
  have out: "\<forall>i. outputAudioContextRef s = Some i \<longrightarrow>
      ctx_state (contexts (stopped s) ! i) = Closed"
    using refs_ok_in_store(6) [OF assms(1)]
    by (simp add: stopped_def closed_close_at_same length_close_at)
  from run cells ses mic proc src inp out show ?thesis by blast
qed

theorem stopConversation_tears_down_witness:
  "refs_ok session0 \<and> (\<forall>c. \<not> no_throw c)
   \<and> stopConversation no_throw session0 =
     Inr (session0\<lparr>isSessionActive := False, agentStatus := Idle, sessionRef := None,
            micStreamRef := None, sessions := [Disconnected], streams := [[Ended]],
            contexts := [\<lparr>ctx_state = Closed, ctx_sampleRate = 16000\<rparr>,
                         \<lparr>ctx_state = Closed, ctx_sampleRate = 24000\<rparr>]\<rparr>)
   \<and> (\<exists>s'. stopConversation no_throw session0 = Inr s' \<and> agentStatus s' = Idle
         \<and> nextStartTimeRef s' = 0
         \<and> list_all (\<lambda>track. track = Ended) (streams s' ! 0)
         \<and> ctx_state (contexts s' ! 0) = Closed \<and> ctx_state (contexts s' ! 1) = Closed)"
proof -
  have nt: "\<forall>c. \<not> no_throw c" by (simp add: no_throw_def)
  have refs: "micStreamRef session0 = Some 0" "audioContextRef session0 = Some 0"
    "outputAudioContextRef session0 = Some 1"
    by (simp_all add: session0_eq)
  from stopConversation_tears_down [OF refs_ok_session0 nt] refs
  have "\<exists>s'. stopConversation no_throw session0 = Inr s' \<and> agentStatus s' = Idle
         \<and> nextStartTimeRef s' = 0
         \<and> list_all (\<lambda>track. track = Ended) (streams s' ! 0)
         \<and> ctx_state (contexts s' ! 0) = Closed \<and> ctx_state (contexts s' ! 1) = Closed"
    by auto
  then show ?thesis
    by (intro conjI) (rule refs_ok_session0 nt stop_session0 | assumption)+
qed

text \<open>
  Claim C9 as stated fails in its second part: a step that fails ends the teardown. When
  closing the session throws, \<open>stopConversation\<close> is left with the state unchanged: the
  capture track is still live, the output context still running, the session still active.
\<close>

theorem throwing_step_skips_the_rest:
  "stopConversation close_throws session0 = Inl (Thrown SessionClose, session0)
   \<and> micStreamRef session0 = Some 0 \<and> streams session0 ! 0 = [Live]
   \<and> outputAudioContextRef session0 = Some 1 \<and> ctx_state (contexts session0 ! 1) = Running
   \<and> isSessionActive session0"
  by (simp add: session0_eq stopConversation_def and_then_def close_session_def close_throws_def)

text \<open>
  Claim C10. With every reference \<open>null\<close>, \<open>stopConversation\<close> makes no call, so it
  returns whatever the calls would do, it only resets the three cells, and a second call
  changes nothing; and after any call that returned, a second call returns the same state.
\<close>

theorem stopConversation_idempotent:
  "(sessionRef s = None \<and> micStreamRef s = None \<and> audioContextRef s = None
      \<and> scriptProcessorRef s = None \<and> mediaStreamSourceRef s = None
      \<and> outputAudioContextRef s = None \<and> analyserNodeRef s = None
     \<longrightarrow> stopConversation throws s =
           Inr (s\<lparr>isSessionActive := False, agentStatus := Idle, nextStartTimeRef := 0\<rparr>)
         \<and> stopConversation throws
             (s\<lparr>isSessionActive := False, agentStatus := Idle, nextStartTimeRef := 0\<rparr>) =
           Inr (s\<lparr>isSessionActive := False, agentStatus := Idle, nextStartTimeRef := 0\<rparr>))
   \<and> (refs_ok s \<and> stopConversation throws s = Inr s' \<longrightarrow> stopConversation throws' s' = Inr s')"
proof (intro conjI impI)
  assume none: "sessionRef s = None \<and> micStreamRef s = None \<and> audioContextRef s = None
      \<and> scriptProcessorRef s = None \<and> mediaStreamSourceRef s = None
      \<and> outputAudioContextRef s = None \<and> analyserNodeRef s = None"
  then show "stopConversation throws s =
      Inr (s\<lparr>isSessionActive := False, agentStatus := Idle, nextStartTimeRef := 0\<rparr>)"
    by (simp add: stopConversation_def and_then_def close_session_def stop_tracks_def
        disconnect_processor_def disconnect_source_def close_input_context_def
        close_output_context_def reset_state_def)
  from none show "stopConversation throws
      (s\<lparr>isSessionActive := False, agentStatus := Idle, nextStartTimeRef := 0\<rparr>) =
      Inr (s\<lparr>isSessionActive := False, agentStatus := Idle, nextStartTimeRef := 0\<rparr>)"
    by (intro stop_again) simp_all
next
  assume a: "refs_ok s \<and> stopConversation throws s = Inr s'"
  then have s': "s' = stopped s" by (auto dest: stopConversation_Inr)
  from a have ok: "refs_ok s" by simp
  have inp: "\<forall>i. audioContextRef (stopped s) = Some i \<longrightarrow>
      ctx_state (contexts (stopped s) ! i) = Closed"
    using refs_ok_in_store(3) [OF ok]
    by (simp add: stopped_def closed_close_at_kept closed_close_at_same length_close_at)
  have out: "\<forall>i. outputAudioContextRef (stopped s) = Some i \<longrightarrow>
      ctx_state (contexts (stopped s) ! i) = Closed"
    using refs_ok_in_store(6) [OF ok]
    by (simp add: stopped_def closed_close_at_same length_close_at)
  have "stopConversation throws' (stopped s) = Inr (stopped s)"
    using inp out by (intro stop_again) (simp_all add: stopped_def)
  with s' show "stopConversation throws' s' = Inr s'" by simp
qed

theorem stopConversation_idempotent_witness:
  "stopConversation close_throws initial = Inr initial
   \<and> refs_ok session0
   \<and> stopConversation no_throw session0 =
     Inr (session0\<lparr>isSessionActive := False, agentStatus := Idle, sessionRef := None,
            micStreamRef := None, sessions := [Disconnected], streams := [[Ended]],
            contexts := [\<lparr>ctx_state = Closed, ctx_sampleRate = 16000\<rparr>,
                         \<lparr>ctx_state = Closed, ctx_sampleRate = 24000\<rparr>]\<rparr>)
   \<and> stopConversation close_throws
       (session0\<lparr>isSessionActive := False, agentStatus := Idle, sessionRef := None,
            micStreamRef := None, sessions := [Disconnected], streams := [[Ended]],
            contexts := [\<lparr>ctx_state = Closed, ctx_sampleRate = 16000\<rparr>,
                         \<lparr>ctx_state = Closed, ctx_sampleRate = 24000\<rparr>]\<rparr>) =
     Inr (session0\<lparr>isSessionActive := False, agentStatus := Idle, sessionRef := None,
            micStreamRef := None, sessions := [Disconnected], streams := [[Ended]],
            contexts := [\<lparr>ctx_state = Closed, ctx_sampleRate = 16000\<rparr>,
                         \<lparr>ctx_state = Closed, ctx_sampleRate = 24000\<rparr>]\<rparr>)"
proof -
  have a: "stopConversation close_throws initial = Inr initial"
    using stopConversation_idempotent [of initial close_throws]
    by (simp add: initial_def)
  have b: "stopConversation close_throws
       (session0\<lparr>isSessionActive := False, agentStatus := Idle, sessionRef := None,
            micStreamRef := None, sessions := [Disconnected], streams := [[Ended]],
            contexts := [\<lparr>ctx_state = Closed, ctx_sampleRate = 16000\<rparr>,
                         \<lparr>ctx_state = Closed, ctx_sampleRate = 24000\<rparr>]\<rparr>) =
     Inr (session0\<lparr>isSessionActive := False, agentStatus := Idle, sessionRef := None,
            micStreamRef := None, sessions := [Disconnected], streams := [[Ended]],
            contexts := [\<lparr>ctx_state = Closed, ctx_sampleRate = 16000\<rparr>,
                         \<lparr>ctx_state = Closed, ctx_sampleRate = 24000\<rparr>]\<rparr>)"
    using stopConversation_idempotent [of session0 no_throw _ close_throws]
      refs_ok_session0 stop_session0 by blast
  show ?thesis
    by (intro conjI) (rule a b refs_ok_session0 stop_session0)+
qed


section \<open>Start-up without the microphone\<close>

text \<open>
  Claim C8, as amended. When \<open>getUserMedia\<close> is rejected, \<open>startConversation\<close> changes the
  two state cells only: the status is Error and the session inactive; it opens nothing, the
  streams, contexts and sessions of the store are those from before the call, so none is
  open after it when none was open before it.
\<close>

theorem permission_denied_start:
  assumes "getUserMedia env = Inl e"
  shows "startConversation env s = s\<lparr>agentStatus := Error, isSessionActive := False\<rparr>
       \<and> agentStatus (startConversation env s) = Error
       \<and> \<not> isSessionActive (startConversation env s)
       \<and> streams (startConversation env s) = streams s
       \<and> contexts (startConversation env s) = contexts s
       \<and> sessions (startConversation env s) = sessions s
       \<and> (released s \<longrightarrow> released (startConversation env s))"
  using assms
  by (simp add: startConversation_def startConversation_begin_def startConversation_catch_def
      released_def)

theorem permission_denied_start_witness:
  "getUserMedia env_denied = Inl PermissionDenied \<and> released initial
   \<and> startConversation env_denied initial = initial\<lparr>agentStatus := Error\<rparr>
   \<and> released (startConversation env_denied initial)"
  using permission_denied_start [of env_denied PermissionDenied initial]
  by (simp add: env_denied_def released_def initial_def)

text \<open>
  Claim C8 as stated fails. A first click starts a session; the microphone is granted and
  the connection fails: the handler at lines 266-270 sets the status to Error and the session
  inactive and releases nothing. A second click starts again, and the permission is denied:
  the status is Error, the session inactive, and the stream of the first start is still live
  and its output context still running.
\<close>

theorem denied_start_leaves_open:
  "handleToggleSession env_no_connection no_throw initial = Inr leaked
   \<and> handleToggleSession env_denied no_throw leaked = Inr leaked
   \<and> agentStatus leaked = Error \<and> \<not> isSessionActive leaked
   \<and> micStreamRef leaked = Some 0 \<and> streams leaked ! 0 = [Live]
   \<and> outputAudioContextRef leaked = Some 1 \<and> ctx_state (contexts leaked ! 1) = Running
   \<and> \<not> released leaked"
  by (simp add: handleToggleSession_def startConversation_def startConversation_begin_def
      startConversation_catch_def startConversation_media_def env_no_connection_def
      env_denied_def leaked_def initial_def released_def Let_def)


section \<open>Status from transcriptions\<close>

lemma audio_guard_agentStatus: "audio_guard m (s\<lparr>agentStatus := x\<rparr>) = audio_guard m s"
  by (simp add: audio_guard_def)

text \<open>
  Claim C5, as amended. For a message that carries an input transcription, no turn-complete
  flag and no audio that passes the guard: the variant \<open>src/unnamed/part_000\<close> sets Thinking
  when the transcription is final and Listening when it is not; the variant \<open>src/App.tsx\<close>
  sets Listening in both cases.
\<close>

theorem transcription_status_by_variant:
  assumes "serverContent m = Some sc" and "inputTranscription sc = Some t"
    and "\<not> truthy_flag (turnComplete sc)" and "\<not> audio_guard m s"
  shows "agentStatus (fst (onmessage_begin_granular m s)) =
           (if truthy_flag (isFinal t) then Thinking else Listening)
       \<and> agentStatus (fst (onmessage_begin m s)) = Listening"
  using assms
  by (simp add: onmessage_begin_granular_def onmessage_begin_def onmessage_audio_def
      transcription_status_granular_def transcription_status_def has_turnComplete_def
      has_inputTranscription_def audio_guard_agentStatus)

theorem transcription_status_by_variant_witness:
  "serverContent (transcription_message (Some True))
     = Some \<lparr> inputTranscription = Some \<lparr> isFinal = Some True \<rparr>,
          turnComplete = None, modelTurn = None \<rparr>
   \<and> \<not> audio_guard (transcription_message (Some True)) session0
   \<and> agentStatus (fst (onmessage_begin_granular (transcription_message (Some True)) session0))
       = Thinking
   \<and> agentStatus (fst (onmessage_begin_granular (transcription_message (Some False)) session0))
       = Listening
   \<and> agentStatus (fst (onmessage_begin (transcription_message (Some True)) session0))
       = Listening"
proof -
  have g: "\<not> audio_guard (transcription_message final) session0" for final
    by (simp add: audio_guard_def audioData_def transcription_message_def truthy_string_def)
  have sc: "serverContent (transcription_message final)
     = Some \<lparr> inputTranscription = Some \<lparr> isFinal = final \<rparr>,
          turnComplete = None, modelTurn = None \<rparr>" for final
    by (simp add: transcription_message_def)
  from transcription_status_by_variant [OF sc _ _ g, of "Some True" "\<lparr> isFinal = Some True \<rparr>"]
  have a: "agentStatus (fst (onmessage_begin_granular (transcription_message (Some True)) session0))
       = Thinking"
    and c: "agentStatus (fst (onmessage_begin (transcription_message (Some True)) session0))
       = Listening"
    by (simp_all add: truthy_flag_def)
  from transcription_status_by_variant [OF sc _ _ g, of "Some False" "\<lparr> isFinal = Some False \<rparr>"]
  have b: "agentStatus (fst (onmessage_begin_granular (transcription_message (Some False)) session0))
       = Listening"
    by (simp_all add: truthy_flag_def)
  show ?thesis
    by (intro conjI) (rule sc g a b c)+
qed

text \<open>
  Claim C5 as stated fails in \<open>src/App.tsx\<close>: a final transcription arriving while the
  status is Speaking sets the status to Listening, not to Thinking.
\<close>

theorem final_transcription_listening:
  "onmessage_begin (transcription_message (Some True)) (session0\<lparr>agentStatus := Speaking\<rparr>)
     = (session0, None)
   \<and> agentStatus session0 = Listening \<and> agentStatus session0 \<noteq> Thinking"
  by (simp add: onmessage_begin_def onmessage_audio_def transcription_status_def
      has_inputTranscription_def transcription_message_def audio_guard_def audioData_def
      truthy_string_def session0_eq)

section \<open>The error handler\<close>

text \<open>
  Claim C6, the code at the failing input. \<open>onerror\<close> sets the status to Error and then
  calls \<open>stopConversation\<close>, which sets it to Idle: after the handler the session is torn
  down and inactive, and the status is Idle, not Error.
\<close>

theorem onerror_status_overwritten:
  "onerror no_throw session0 =
     Inr (session0\<lparr>isSessionActive := False, agentStatus := Idle, sessionRef := None,
            micStreamRef := None, sessions := [Disconnected], streams := [[Ended]],
            contexts := [\<lparr>ctx_state = Closed, ctx_sampleRate = 16000\<rparr>,
                         \<lparr>ctx_state = Closed, ctx_sampleRate = 24000\<rparr>]\<rparr>)
   \<and> agentStatus (session0\<lparr>isSessionActive := False, agentStatus := Idle, sessionRef := None,
            micStreamRef := None, sessions := [Disconnected], streams := [[Ended]],
            contexts := [\<lparr>ctx_state = Closed, ctx_sampleRate = 16000\<rparr>,
                         \<lparr>ctx_state = Closed, ctx_sampleRate = 24000\<rparr>]\<rparr>) \<noteq> Error"
  by (simp add: onerror_def session0_eq stopConversation_def and_then_def close_session_def
      stop_tracks_def disconnect_processor_def disconnect_source_def close_input_context_def
      close_output_context_def reset_state_def no_throw_def)

section \<open>Stopping while a decode is in flight\<close>

lemma duration_five_seconds: "duration five_seconds = 5"
  by (simp add: duration_def five_seconds_def)

text \<open>
  Claim C3, the code at the failing input. A buffer of five seconds is playing (cursor 5);
  a message with audio arrives and its handler suspends at the decode; the session is
  stopped (cursor 0, output context closed, its reference kept); the decode completes at
  clock reading 3. The handler resumes, starts a source at 3 on the closed context and sets
  the cursor to 4. A message with audio that arrives after the stop passes the guard as well.
\<close>

theorem schedules_after_stop:
  "onmessage_resume 0 five_seconds session0 = Inr playing
   \<and> onmessage_begin audio_message playing = (playing\<lparr>agentStatus := Speaking\<rparr>, Some ''AAAA'')
   \<and> stopConversation no_throw (playing\<lparr>agentStatus := Speaking\<rparr>) = Inr halted
   \<and> nextStartTimeRef playing = 5 \<and> nextStartTimeRef halted = 0
   \<and> outputAudioContextRef halted = Some 1 \<and> ctx_state (contexts halted ! 1) = Closed
   \<and> onmessage_resume 3 one_second halted =
       Inr (halted\<lparr>started := [(1, 0, five_seconds), (1, 3, one_second)],
                   nextStartTimeRef := 4\<rparr>)
   \<and> onmessage_begin audio_message halted = (halted\<lparr>agentStatus := Speaking\<rparr>, Some ''AAAA'')"
  by (simp add: playing_def halted_def session0_eq onmessage_resume_def onmessage_begin_def
      onmessage_audio_def transcription_status_def has_inputTranscription_def
      has_turnComplete_def truthy_flag_def
      audio_guard_def audioData_def audio_message_def truthy_string_def
      duration_five_seconds duration_one_second
      stopConversation_def and_then_def close_session_def
      stop_tracks_def disconnect_processor_def disconnect_source_def close_input_context_def
      close_output_context_def reset_state_def no_throw_def)


section \<open>The references stay well formed\<close>

lemma in_store_iff: "in_store r xs \<longleftrightarrow> (\<forall>i. r = Some i \<longrightarrow> i < length xs)"
  by (cases r) (simp_all add: in_store_def)

lemma length_end_at: "length (end_at r xs) = length xs"
  by (cases r) (auto simp: end_at_def)

lemma refs_ok_startConversation:
  assumes "refs_ok s"
  shows "refs_ok (startConversation env s)"
proof (cases "getUserMedia env")
  case (Inl e)
  with assms show ?thesis
    by (simp add: refs_ok_def startConversation_def startConversation_begin_def
        startConversation_catch_def)
next
  case (Inr stream)
  have media: "refs_ok (startConversation_media stream (startConversation_begin s))"
    using assms
    by (simp add: refs_ok_def in_store_iff startConversation_media_def
        startConversation_begin_def Let_def less_Suc_eq)
  show ?thesis
  proof (cases "connect env")
    case (Inl e)
    with Inr media show ?thesis
      by (simp add: refs_ok_def startConversation_def startConversation_catch_def Let_def)
  next
    case (Inr session)
    with \<open>getUserMedia env = Inr stream\<close> media show ?thesis
      by (simp add: refs_ok_def in_store_iff startConversation_def
          startConversation_connected_def Let_def less_Suc_eq)
  qed
qed

lemma refs_ok_stopped: "refs_ok s \<Longrightarrow> refs_ok (stopped s)"
  by (simp add: refs_ok_def in_store_iff stopped_def length_put_at length_close_at
      length_end_at)

lemma refs_ok_stopConversation:
  "refs_ok s \<Longrightarrow> stopConversation t s = Inr s' \<Longrightarrow> refs_ok s'"
  by (auto dest: stopConversation_Inr simp: refs_ok_stopped)

lemma refs_ok_onmessage_resume:
  assumes "refs_ok s" and "onmessage_resume now buf s = Inr s'"
  shows "refs_ok s'"
proof -
  from assms(2) obtain c where
    "s' = s\<lparr>started := started s @ [(c, max now (nextStartTimeRef s), buf)],
            nextStartTimeRef := max now (nextStartTimeRef s) + duration buf\<rparr>"
    by (auto simp: onmessage_resume_def Let_def split: option.splits)
  with assms(1) show ?thesis by (simp add: refs_ok_def)
qed

lemma refs_ok_onopen:
  assumes "refs_ok s" and "onopen s = Inr s'"
  shows "refs_ok s'"
proof -
  from assms(2) have
    "s' = s\<lparr>mediaStreamSourceRef := Some (length (nodes s)),
            scriptProcessorRef := Some (Suc (length (nodes s))),
            nodes := (nodes s @ [False, False])[length (nodes s) := True,
                                                  Suc (length (nodes s)) := True]\<rparr>"
    by (cases s) (auto simp: onopen_def Let_def split: option.splits)
  with assms(1) show ?thesis
    by (simp add: refs_ok_def in_store_iff less_Suc_eq)
qed


section \<open>Base64\<close>

lemma index_of_nth: "distinct xs \<Longrightarrow> n < length xs \<Longrightarrow> index_of (xs ! n) xs = Some n"
proof (induction xs arbitrary: n)
  case Nil
  then show ?case by simp
next
  case (Cons x xs)
  show ?case
  proof (cases n)
    case 0
    then show ?thesis by simp
  next
    case (Suc m)
    with Cons.prems have "m < length xs" and "distinct xs" and "xs ! m \<noteq> x"
      by auto
    with Cons.IH [of m] Suc show ?thesis by auto
  qed
qed

lemma length_alphabet: "length alphabet = 64"
  by (simp add: alphabet_def)

lemma distinct_alphabet: "distinct alphabet"
  by (simp add: alphabet_def)

lemma pad_not_in_alphabet: "CHR ''='' \<notin> set alphabet"
  by (simp add: alphabet_def)

lemma value_of_sextet: "n < 64 \<Longrightarrow> value_of (sextet n) = Some n"
  by (simp add: value_of_def sextet_def index_of_nth distinct_alphabet length_alphabet)

lemma sextet_not_pad: "n < 64 \<Longrightarrow> sextet n \<noteq> CHR ''=''"
proof
  assume "n < 64" and "sextet n = CHR ''=''"
  then have "CHR ''='' \<in> set alphabet"
    using nth_mem [of n alphabet] by (simp add: sextet_def length_alphabet)
  with pad_not_in_alphabet show False by simp
qed

lemma sextet_bounds:
  fixes a b c :: nat
  shows "a < 256 \<Longrightarrow> a div 4 < 64"
    and "(a mod 4) * 16 < 64"
    and "b < 256 \<Longrightarrow> (a mod 4) * 16 + b div 16 < 64"
    and "(b mod 16) * 4 < 64"
    and "c < 256 \<Longrightarrow> (b mod 16) * 4 + c div 64 < 64"
    and "c mod 64 < 64"
proof -
  have a4: "a mod 4 < 4" and b16: "b mod 16 < 16" by simp_all
  show "a < 256 \<Longrightarrow> a div 4 < 64" by simp
  show "(a mod 4) * 16 < 64" using a4 by linarith
  show "(b mod 16) * 4 < 64" using b16 by linarith
  show "c mod 64 < 64" by simp
  show "b < 256 \<Longrightarrow> (a mod 4) * 16 + b div 16 < 64"
  proof -
    assume "b < 256"
    then have "b div 16 < 16" by simp
    with a4 show ?thesis by linarith
  qed
  show "c < 256 \<Longrightarrow> (b mod 16) * 4 + c div 64 < 64"
  proof -
    assume "c < 256"
    then have "c div 64 < 4" by simp
    with b16 show ?thesis by linarith
  qed
qed

lemma sextet_split:
  fixes a b c :: nat
  shows "b < 256 \<Longrightarrow> ((a mod 4) * 16 + b div 16) div 16 = a mod 4"
    and "b < 256 \<Longrightarrow> ((a mod 4) * 16 + b div 16) mod 16 = b div 16"
    and "c < 256 \<Longrightarrow> ((b mod 16) * 4 + c div 64) div 4 = b mod 16"
    and "c < 256 \<Longrightarrow> ((b mod 16) * 4 + c div 64) mod 4 = c div 64"
  by simp_all

lemma b64_roundtrip: "\<forall>b \<in> set bs. b < 256 \<Longrightarrow> b64_decode (b64_encode bs) = Some bs"
proof (induction bs rule: b64_encode.induct)
  case 1
  then show ?case by simp
next
  case (2 a)
  then have "a < 256" by simp
  then show ?case by (simp add: value_of_sextet sextet_bounds)
next
  case (3 a b)
  then have "a < 256" "b < 256" by simp_all
  then show ?case
    by (simp add: value_of_sextet sextet_not_pad sextet_bounds sextet_split)
next
  case (4 a b c rest)
  then have "a < 256" "b < 256" "c < 256" by simp_all
  moreover from 4 have "b64_decode (b64_encode rest) = Some rest" by simp
  ultimately show ?case
    by (simp add: value_of_sextet sextet_not_pad sextet_bounds sextet_split)
qed


section \<open>Sixteen-bit samples\<close>

lemma int16_bytes_small: "\<forall>b \<in> set (int16_bytes q). b < 256"
proof -
  have "q mod 256 < 256" "q div 256 mod 256 < 256" by simp_all
  then show ?thesis by (simp add: int16_bytes_def nat_less_iff)
qed

lemma to_int16_range: "- 32768 \<le> to_int16 x \<and> to_int16 x \<le> 32767"
  by (simp add: to_int16_def)

lemma to_signed_bytes:
  assumes "- 32768 \<le> q" and "q \<le> 32767"
  shows "to_signed (nat (q mod 256) + 256 * nat (q div 256 mod 256)) = q"
proof -
  define u where "u = nat (q mod 256) + 256 * nat (q div 256 mod 256)"
  have lo: "0 \<le> q mod 256" and hi: "0 \<le> q div 256 mod 256" by simp_all
  have "int u = q mod 256 + 256 * (q div 256 mod 256)"
    using lo hi by (simp add: u_def)
  moreover have "q mod (256 * 256) = 256 * (q div 256 mod 256) + q mod 256"
    by (rule zmod_zmult2_eq) simp
  ultimately have u: "int u = q mod 65536" by simp
  have "to_signed u = q"
  proof (cases "0 \<le> q")
    case True
    with assms have "q mod 65536 = q" by simp
    with u have "int u = q" by simp
    moreover from this assms have "u < 32768" by linarith
    ultimately show ?thesis by (simp add: to_signed_def)
  next
    case False
    have "(q + 65536) mod 65536 = q mod 65536" by simp
    moreover from False assms have "(q + 65536) mod 65536 = q + 65536"
      by (intro mod_pos_pos_trivial) simp_all
    ultimately have "q mod 65536 = q + 65536" by simp
    with u have eq: "int u = q + 65536" by simp
    from eq assms have "\<not> u < 32768" by linarith
    with eq show ?thesis by (simp add: to_signed_def)
  qed
  then show ?thesis by (simp add: u_def)
qed

lemma int16_values_bytes:
  "\<forall>q \<in> set qs. - 32768 \<le> q \<and> q \<le> 32767 \<Longrightarrow>
     int16_values (concat (map int16_bytes qs)) = Some qs"
proof (induction qs)
  case Nil
  then show ?case by simp
next
  case (Cons q qs)
  then have "to_signed (nat (q mod 256) + 256 * nat (q div 256 mod 256)) = q"
    by (simp add: to_signed_bytes)
  with Cons show ?case by (simp add: int16_bytes_def)
qed

lemma trunc_error:
  "\<bar>real_of_int (trunc y) - y\<bar> < 1"
  by (auto simp: trunc_def; linarith)

lemma to_int16_error:
  assumes "- 1 \<le> x" and "x \<le> 1"
  shows "\<bar>real_of_int (to_int16 x) / 32768 - x\<bar> \<le> 1 / 32768"
proof -
  let ?y = "x * 32768"
  from assms have y: "- 32768 \<le> ?y" "?y \<le> 32768" by simp_all
  have t: "\<bar>real_of_int (trunc ?y) - ?y\<bar> < 1" by (rule trunc_error)
  have lower: "- 32768 \<le> trunc ?y"
    using y(1) by (simp add: trunc_def le_floor_iff le_ceiling_iff)
  have upper: "trunc ?y \<le> 32768"
    using y(2) by (simp add: trunc_def floor_le_iff ceiling_le_iff)
  have "\<bar>real_of_int (to_int16 x) - ?y\<bar> \<le> 1"
  proof (cases "trunc ?y = 32768")
    case True
    then have "to_int16 x = 32767" by (simp add: to_int16_def)
    moreover from True t y have "32767 < ?y" by linarith
    ultimately show ?thesis using y by simp
  next
    case False
    with lower upper have "to_int16 x = trunc ?y" by (simp add: to_int16_def)
    with t show ?thesis by simp
  qed
  then have "\<bar>real_of_int (to_int16 x) - ?y\<bar> / 32768 \<le> 1 / 32768"
    by (simp add: divide_right_mono)
  moreover have "\<bar>real_of_int (to_int16 x) / 32768 - x\<bar>
      = \<bar>real_of_int (to_int16 x) - ?y\<bar> / 32768"
  proof -
    have "real_of_int (to_int16 x) / 32768 - x = (real_of_int (to_int16 x) - ?y) / 32768"
      by (simp add: diff_divide_distrib)
    then have "\<bar>real_of_int (to_int16 x) / 32768 - x\<bar>
        = \<bar>(real_of_int (to_int16 x) - ?y) / 32768\<bar>"
      by (rule arg_cong)
    also have "\<dots> = \<bar>real_of_int (to_int16 x) - ?y\<bar> / \<bar>32768\<bar>"
      by (rule abs_divide)
    finally show ?thesis by simp
  qed
  ultimately show ?thesis by simp
qed


lemma bytes_small:
  "\<forall>b \<in> set (concat (map (\<lambda>x. int16_bytes (to_int16 x)) frame)). b < 256"
  using int16_bytes_small by auto

lemma test_frame_payload: "payload (createBlob test_frame) = ''AAD/fwCAAEBW1Q==''"
  by (simp add: test_frame_def createBlob_def to_int16_def trunc_def int16_bytes_def
      sextet_def alphabet_def)

lemma test_frame_roundtrip:
  "roundtrip test_frame =
     Some \<lparr> samples = [0, 32767 / 32768, - 1, 1 / 2, - (5461 / 16384)], sampleRate = 24000,
            channelCount = 1 \<rparr>"
  by (simp add: roundtrip_def test_frame_payload decode_def value_of_def alphabet_def
      decodeAudioData_def to_signed_def)

section \<open>Encoding and decoding\<close>

text \<open>
  Claim C4. For every frame of samples in \<open>[-1, 1]\<close>, decoding the payload of the encoded
  frame succeeds and gives as many samples, each within \<open>2^-15\<close>, one step of the 16-bit
  quantization, of the original.
\<close>

theorem encode_decode_roundtrip:
  assumes "\<forall>x \<in> set frame. - 1 \<le> x \<and> x \<le> 1"
  shows "\<exists>buf. roundtrip frame = Some buf
           \<and> length (samples buf) = length frame
           \<and> (\<forall>i < length frame. \<bar>samples buf ! i - frame ! i\<bar> \<le> 1 / 32768)"
proof -
  let ?qs = "map to_int16 frame"
  let ?buf = "\<lparr> samples = map (\<lambda>q. real_of_int q / 32768) ?qs, sampleRate = 24000,
                 channelCount = 1 \<rparr>"
  have bytes: "concat (map (\<lambda>x. int16_bytes (to_int16 x)) frame) = concat (map int16_bytes ?qs)"
    by (simp add: comp_def)
  have "decode (payload (createBlob frame)) = Some (concat (map int16_bytes ?qs))"
    using bytes_small [of frame] by (simp add: decode_def createBlob_def b64_roundtrip bytes)
  moreover have "int16_values (concat (map int16_bytes ?qs)) = Some ?qs"
    by (rule int16_values_bytes) (simp add: to_int16_range)
  ultimately have run: "roundtrip frame = Some ?buf"
    by (simp add: roundtrip_def decodeAudioData_def)
  have close: "\<forall>i < length frame. \<bar>samples ?buf ! i - frame ! i\<bar> \<le> 1 / 32768"
  proof (intro allI impI)
    fix i
    assume i: "i < length frame"
    then have "frame ! i \<in> set frame" by simp
    with assms have "- 1 \<le> frame ! i" "frame ! i \<le> 1" by auto
    then have "\<bar>real_of_int (to_int16 (frame ! i)) / 32768 - frame ! i\<bar> \<le> 1 / 32768"
      by (rule to_int16_error)
    with i show "\<bar>samples ?buf ! i - frame ! i\<bar> \<le> 1 / 32768" by simp
  qed
  have "length (samples ?buf) = length frame" by simp
  with run close show ?thesis by blast
qed

theorem encode_decode_roundtrip_witness:
  "list_all (\<lambda>x. - 1 \<le> x \<and> x \<le> 1) test_frame
   \<and> roundtrip test_frame =
     Some \<lparr> samples = [0, 32767 / 32768, - 1, 1 / 2, - (5461 / 16384)], sampleRate = 24000,
            channelCount = 1 \<rparr>
   \<and> \<bar>- (5461 / 16384) - test_frame ! 4\<bar> \<le> 1 / 32768"
proof -
  have inside: "list_all (\<lambda>x. - 1 \<le> x \<and> x \<le> 1) test_frame"
    by (simp add: test_frame_def)
  then have range: "\<forall>x \<in> set test_frame. - 1 \<le> x \<and> x \<le> 1"
    by (simp add: list_all_iff)
  from encode_decode_roundtrip [OF range] test_frame_roundtrip
  have "\<forall>i < length test_frame.
      \<bar>[0, 32767 / 32768, - 1, 1 / 2, - (5461 / 16384)] ! i - test_frame ! i\<bar> \<le> 1 / 32768"
    by simp
  moreover have "4 < length test_frame" by (simp add: test_frame_def)
  ultimately have "\<bar>[0, 32767 / 32768, - 1, 1 / 2, - (5461 / 16384)] ! 4 - test_frame ! 4\<bar>
      \<le> 1 / 32768"
    by blast
  then have "\<bar>- (5461 / 16384) - test_frame ! 4\<bar> \<le> 1 / 32768" by simp
  with inside test_frame_roundtrip show ?thesis by blast
qed

end
